theory Spec2Isabelle
  imports Main "HOL-Library.Sublist"
begin

section \<open>The schema-adaptive query builder of \<^verbatim>\<open>run_query.py\<close>\<close>

text \<open>
  The development embeds \<^verbatim>\<open>find_first_in\<close> and \<^verbatim>\<open>build_query\<close> of
  \<^verbatim>\<open>run_query.py\<close>. The connection is read through \<^verbatim>\<open>get_tables\<close> and
  \<^verbatim>\<open>get_columns\<close> only, so it is modelled by what those two queries return: the
  table names in the order the catalogue lists them, each with its column names in
  declaration order. Names are Python strings; they are modelled as lists of characters
  with code points below 256.
\<close>

subsection \<open>Schema snapshot and the two catalogue queries\<close>

type_synonym schema = "(string \<times> string list) list"

text \<open>An f-string hole prints \<^verbatim>\<open>None\<close> as the four letters \<^verbatim>\<open>None\<close>.\<close>

definition fmt :: "string option \<Rightarrow> string" where
  "fmt v = (case v of None \<Rightarrow> ''None'' | Some s \<Rightarrow> s)"

text \<open>Python truth value of a value that is \<^verbatim>\<open>None\<close> or a string.\<close>

definition truthy :: "string option \<Rightarrow> bool" where
  "truthy v = (case v of None \<Rightarrow> False | Some s \<Rightarrow> s \<noteq> [])"

text \<open>\<^verbatim>\<open>v or d\<close> for a default string \<^verbatim>\<open>d\<close>.\<close>

definition or_default :: "string option \<Rightarrow> string \<Rightarrow> string" where
  "or_default v d = (if truthy v then fmt v else d)"

definition get_tables :: "schema \<Rightarrow> string list" where
  "get_tables conn = map fst conn"

text \<open>
  \<^verbatim>\<open>get_columns\<close> splices the table name into \<^verbatim>\<open>PRAGMA table_info(...)\<close> with an
  f-string; a name the store does not know yields no rows.
\<close>

definition get_columns :: "schema \<Rightarrow> string option \<Rightarrow> string list" where
  "get_columns conn table = (case map_of conn (fmt table) of None \<Rightarrow> [] | Some cs \<Rightarrow> cs)"

subsection \<open>Candidate lists\<close>

definition PRODUCT_NAME_CANDIDATES :: "string list" where
  "PRODUCT_NAME_CANDIDATES = [''product_name'', ''name'', ''title'', ''product_title'', ''product'']"

definition ORDER_TOTAL_CANDIDATES :: "string list" where
  "ORDER_TOTAL_CANDIDATES = [''total_amount'', ''total'', ''amount'', ''order_total'']"

definition REVIEW_RATING_CANDIDATES :: "string list" where
  "REVIEW_RATING_CANDIDATES = [''rating'', ''stars'', ''score'']"

definition ORDER_ID_CANDIDATES :: "string list" where
  "ORDER_ID_CANDIDATES = [''order_id'', ''id'']"

definition PRODUCT_ID_CANDIDATES :: "string list" where
  "PRODUCT_ID_CANDIDATES = [''product_id'', ''id'']"

definition CUSTOMER_ID_CANDIDATES :: "string list" where
  "CUSTOMER_ID_CANDIDATES = [''customer_id'', ''id'']"

definition QUANTITY_CANDIDATES :: "string list" where
  "QUANTITY_CANDIDATES = [''quantity'', ''qty'']"

text \<open>The candidate list written inline for the subtotal column.\<close>

definition SUBTOTAL_CANDIDATES :: "string list" where
  "SUBTOTAL_CANDIDATES = [''subtotal'', ''line_total'', ''amount'']"

subsection \<open>Candidate resolution\<close>

primrec find_first_in :: "string list \<Rightarrow> string list \<Rightarrow> string option" where
  "find_first_in cols [] = None"
| "find_first_in cols (c # candidates) =
     (if c \<in> set cols then Some c else find_first_in cols candidates)"

text \<open>
  The reference definition, in the words of the specification: the first candidate
  present in the columns, absent if none of the candidates occur.
\<close>

definition resolve_spec :: "string list \<Rightarrow> string list \<Rightarrow> string option" where
  "resolve_spec columns candidates =
     (case filter (\<lambda>c. c \<in> set columns) candidates of [] \<Rightarrow> None | c # _ \<Rightarrow> Some c)"

subsection \<open>Lower-casing of table names\<close>

text \<open>
  \<^verbatim>\<open>str.lower\<close> on code points below 256: the letters A to Z and the Latin-1 capitals
  (192 to 222 without the multiplication sign 215) move up by 32, all else is kept.
\<close>

definition lower_char :: "char \<Rightarrow> char" where
  "lower_char c =
     (let n = (of_char c :: nat)
      in if (65 \<le> n \<and> n \<le> 90) \<or> (192 \<le> n \<and> n \<le> 222 \<and> n \<noteq> 215)
         then char_of (n + 32) else c)"

definition lower :: "string \<Rightarrow> string" where
  "lower s = map lower_char s"

primrec find_table :: "string list \<Rightarrow> string \<Rightarrow> string option" where
  "find_table [] name = None"
| "find_table (t # tables) name =
     (if lower t = name then Some t else find_table tables name)"

subsection \<open>Errors and the local variables of \<^verbatim>\<open>build_query\<close>\<close>

text \<open>
  \<^verbatim>\<open>RuntimeError\<close> is the error raised when a mandatory table is missing (its message
  is fixed and left out); \<^verbatim>\<open>IndexError\<close> is what \<^verbatim>\<open>cols[0]\<close> raises on an empty
  column list.
\<close>

datatype error = RuntimeError | IndexError

text \<open>\<^verbatim>\<open>v or cols[0]\<close>: the index is evaluated only when \<^verbatim>\<open>v\<close> is falsy.\<close>

definition or_first :: "string option \<Rightarrow> string list \<Rightarrow> error + string" where
  "or_first v cols =
     (if truthy v then Inr (fmt v)
      else case cols of [] \<Rightarrow> Inl IndexError | c # _ \<Rightarrow> Inr c)"

text \<open>The values bound by lines 49 to 81 of \<^verbatim>\<open>run_query.py\<close>, under their names there.\<close>

record binding =
  t_customers :: "string option"
  t_orders :: "string option"
  t_products :: "string option"
  t_order_items :: "string option"
  t_reviews :: "string option"
  cust_id_col :: string
  order_id_col :: string
  product_id_col :: "string option"
  product_name_col :: "string option"
  quantity_col :: "string option"
  subtotal_col :: "string option"
  order_total_col :: "string option"
  rating_col :: "string option"

text \<open>Product id location: prefer order_items, then orders (lines 66 to 70).\<close>

definition resolve_product_id :: "string list \<Rightarrow> string list \<Rightarrow> string option" where
  "resolve_product_id oi_cols orders_cols =
     (let p = (if oi_cols \<noteq> [] then find_first_in oi_cols PRODUCT_ID_CANDIDATES else None)
      in if \<not> truthy p then find_first_in orders_cols PRODUCT_ID_CANDIDATES else p)"

definition optional_table :: "string list \<Rightarrow> string \<Rightarrow> string option" where
  "optional_table tables name =
     (if name \<in> set (map lower tables) then find_table tables name else None)"

definition optional_columns :: "schema \<Rightarrow> string option \<Rightarrow> string list" where
  "optional_columns conn t = (if truthy t then get_columns conn t else [])"

text \<open>
  Lines 49 to 59 and 65 to 81: the table names, the column lists and the role bindings.
  None of these steps can raise; the two id columns of lines 62 and 63, which can, are
  passed in.
\<close>

definition bind_roles :: "schema \<Rightarrow> string \<Rightarrow> string \<Rightarrow> binding" where
  "bind_roles conn cid oid =
     (let tables = get_tables conn;
          tc = find_table tables ''customers'';
          tor = find_table tables ''orders'';
          tp = optional_table tables ''products'';
          toi = optional_table tables ''order_items'';
          tr = optional_table tables ''reviews'';
          orders_cols = get_columns conn tor;
          products_cols = optional_columns conn tp;
          oi_cols = optional_columns conn toi;
          reviews_cols = optional_columns conn tr
      in \<lparr> t_customers = tc, t_orders = tor, t_products = tp,
            t_order_items = toi, t_reviews = tr,
            cust_id_col = cid, order_id_col = oid,
            product_id_col = resolve_product_id oi_cols orders_cols,
            product_name_col =
              (if products_cols \<noteq> []
               then find_first_in products_cols PRODUCT_NAME_CANDIDATES else None),
            quantity_col =
              (if oi_cols \<noteq> [] then find_first_in oi_cols QUANTITY_CANDIDATES else None),
            subtotal_col =
              (if oi_cols \<noteq> [] then find_first_in oi_cols SUBTOTAL_CANDIDATES else None),
            order_total_col = find_first_in orders_cols ORDER_TOTAL_CANDIDATES,
            rating_col =
              (if reviews_cols \<noteq> []
               then find_first_in reviews_cols REVIEW_RATING_CANDIDATES else None) \<rparr>)"

text \<open>
  Lines 35 to 81 as a whole: the check for the mandatory tables, then the two id columns
  with their fall-back to the first column, then the bindings.
\<close>

definition resolve :: "schema \<Rightarrow> error + binding" where
  "resolve conn =
     (let tables = get_tables conn;
          tables_lower = map lower tables
      in if ''customers'' \<notin> set tables_lower \<or> ''orders'' \<notin> set tables_lower
         then Inl RuntimeError
         else
           let orders_cols = get_columns conn (find_table tables ''orders'');
               customers_cols = get_columns conn (find_table tables ''customers'')
           in case or_first (find_first_in customers_cols CUSTOMER_ID_CANDIDATES) customers_cols of
                Inl e \<Rightarrow> Inl e
              | Inr cid \<Rightarrow>
                 (case or_first (find_first_in orders_cols ORDER_ID_CANDIDATES) orders_cols of
                    Inl e \<Rightarrow> Inl e
                  | Inr oid \<Rightarrow> Inr (bind_roles conn cid oid)))"

text \<open>
  The columns of the table whose lower-cased name is \<^verbatim>\<open>name\<close>, and no columns when the
  snapshot has no such table: what the column lists of lines 55 to 59 hold.
\<close>

definition columns_of :: "schema \<Rightarrow> string \<Rightarrow> string list" where
  "columns_of conn name = optional_columns conn (optional_table (get_tables conn) name)"

subsection \<open>The three tiers and their query text\<close>

datatype tier = Full | Degraded | Minimal

text \<open>The conditions of lines 84 and 106, in that order; the last resort needs none.\<close>

definition select_tier :: "binding \<Rightarrow> tier" where
  "select_tier b =
     (if truthy (t_order_items b) \<and> truthy (product_name_col b) then Full
      else if truthy (product_id_col b) \<and> truthy (t_products b) \<and> truthy (product_name_col b)
      then Degraded
      else Minimal)"

text \<open>
  A triple-quoted literal opens with a line break and closes after the indentation of
  its last line: every line of the block is preceded by a line break.
\<close>

definition text_block :: "string list \<Rightarrow> string" where
  "text_block ls = concat (map (\<lambda>l. CHR 0x0A # l) ls)"

definition rating_expr :: "binding \<Rightarrow> string" where
  "rating_expr b =
     (if truthy (rating_col b) then ''r.'' @ fmt (rating_col b) else ''NULL AS rating'')"

definition full_select :: "binding \<Rightarrow> string list" where
  "full_select b =
     [''        SELECT'',
      ''            c.'' @ cust_id_col b @ '' AS customer_id,'',
      ''            c.name AS customer_name,'',
      ''            p.'' @ fmt (product_name_col b) @ '' AS product_name,'',
      ''            o.'' @ order_id_col b @ '' AS order_id,'',
      ''            o.order_date,'',
      ''            oi.'' @ or_default (quantity_col b) ''quantity'' @ '' AS quantity,'',
      ''            oi.'' @ or_default (subtotal_col b) ''subtotal'' @ '' AS subtotal,'',
      ''            '' @ rating_expr b]"

definition full_from :: "binding \<Rightarrow> string list" where
  "full_from b =
     [''        FROM '' @ fmt (t_customers b) @ '' c'',
      ''        JOIN '' @ fmt (t_orders b) @ '' o ON c.'' @ cust_id_col b @ '' = o.customer_id'',
      ''        JOIN '' @ fmt (t_order_items b) @ '' oi ON o.'' @ order_id_col b
        @ '' = oi.order_id'',
      ''        LEFT JOIN '' @ fmt (t_products b) @ '' p ON oi.product_id = p.''
        @ or_default (product_id_col b) ''product_id'',
      ''        LEFT JOIN '' @ fmt (t_reviews b) @ '' r ON r.customer_id = c.'' @ cust_id_col b
        @ '' AND r.product_id = p.'' @ or_default (product_id_col b) ''product_id'']"

definition full_sql :: "binding \<Rightarrow> string" where
  "full_sql b = text_block (full_select b @ full_from b @ [''        LIMIT 50;'', ''        ''])"

definition subtotal_expr :: "binding \<Rightarrow> string" where
  "subtotal_expr b =
     (if truthy (order_total_col b) then ''o.'' @ fmt (order_total_col b) else ''o.total_amount'')"

definition degraded_select :: "binding \<Rightarrow> string list" where
  "degraded_select b =
     [''        SELECT'',
      ''            c.'' @ cust_id_col b @ '' AS customer_id,'',
      ''            c.name AS customer_name,'',
      ''            p.'' @ fmt (product_name_col b) @ '' AS product_name,'',
      ''            o.'' @ order_id_col b @ '' AS order_id,'',
      ''            o.order_date,'',
      ''            '' @ ''1'' @ '' AS quantity,'',
      ''            '' @ subtotal_expr b @ '' AS subtotal,'',
      ''            '' @ rating_expr b]"

definition degraded_from :: "binding \<Rightarrow> string list" where
  "degraded_from b =
     [''        FROM '' @ fmt (t_customers b) @ '' c'',
      ''        JOIN '' @ fmt (t_orders b) @ '' o ON c.'' @ cust_id_col b @ '' = o.customer_id'',
      ''        LEFT JOIN '' @ fmt (t_products b) @ '' p ON o.'' @ fmt (product_id_col b)
        @ '' = p.'' @ fmt (product_id_col b),
      ''        LEFT JOIN '' @ fmt (t_reviews b) @ '' r ON r.customer_id = c.'' @ cust_id_col b
        @ '' AND r.product_id = p.'' @ fmt (product_id_col b)]"

definition degraded_sql :: "binding \<Rightarrow> string" where
  "degraded_sql b =
     text_block (degraded_select b @ degraded_from b @ [''        LIMIT 50;'', ''        ''])"

definition minimal_select :: "binding \<Rightarrow> string list" where
  "minimal_select b =
     [''    SELECT'',
      ''        c.'' @ cust_id_col b @ '' AS customer_id,'',
      ''        c.name AS customer_name,'',
      ''        o.'' @ order_id_col b @ '' AS order_id,'',
      ''        o.order_date,'',
      ''        o.'' @ or_default (order_total_col b) ''total_amount'' @ '' AS total_amount'']"

definition minimal_from :: "binding \<Rightarrow> string list" where
  "minimal_from b =
     [''    FROM '' @ fmt (t_customers b) @ '' c'',
      ''    LEFT JOIN '' @ fmt (t_orders b) @ '' o ON c.'' @ cust_id_col b
        @ '' = o.customer_id'']"

definition minimal_sql :: "binding \<Rightarrow> string" where
  "minimal_sql b = text_block (minimal_select b @ minimal_from b @ [''    LIMIT 50;'', ''    ''])"

definition render :: "tier \<Rightarrow> binding \<Rightarrow> string" where
  "render t b = (case t of Full \<Rightarrow> full_sql b | Degraded \<Rightarrow> degraded_sql b
                 | Minimal \<Rightarrow> minimal_sql b)"

definition build_query :: "schema \<Rightarrow> error + string" where
  "build_query conn =
     (case resolve conn of Inl e \<Rightarrow> Inl e | Inr b \<Rightarrow> Inr (render (select_tier b) b))"

subsection \<open>The end-to-end scenarios of the specification\<close>

text \<open>Scenario A: customers and orders only.\<close>

definition scenario_A :: schema where
  "scenario_A =
     [(''customers'', [''customer_id'', ''name'']),
      (''orders'', [''order_id'', ''customer_id'', ''total_amount'', ''order_date''])]"

text \<open>Scenario B: a products table is added and orders gains product_id.\<close>

definition scenario_B :: schema where
  "scenario_B =
     [(''customers'', [''customer_id'', ''name'']),
      (''orders'', [''order_id'', ''customer_id'', ''product_id'', ''total_amount'', ''order_date'']),
      (''products'', [''product_id'', ''name''])]"

text \<open>Scenario C: order_items and reviews are added.\<close>

definition scenario_C :: schema where
  "scenario_C =
     scenario_B @
     [(''order_items'', [''order_id'', ''product_id'', ''quantity'', ''subtotal'']),
      (''reviews'', [''customer_id'', ''product_id'', ''rating''])]"

subsection \<open>Two further snapshots\<close>

text \<open>Customers and orders whose columns match no candidate name.\<close>

definition schema_unmatched_ids :: schema where
  "schema_unmatched_ids =
     [(''customers'', [''cid'', ''full_name'']),
      (''orders'', [''oid'', ''cid'', ''placed_on''])]"

text \<open>A products table keyed by \<^verbatim>\<open>id\<close>, referenced from order_items by \<^verbatim>\<open>product_id\<close>.\<close>

definition schema_products_own_id :: schema where
  "schema_products_own_id =
     [(''customers'', [''customer_id'', ''name'']),
      (''orders'', [''order_id'', ''customer_id'', ''order_date'']),
      (''order_items'', [''order_id'', ''product_id'', ''quantity'', ''subtotal'']),
      (''products'', [''id'', ''name'']),
      (''reviews'', [''customer_id'', ''product_id'', ''rating''])]"

section \<open>Properties\<close>

subsection \<open>Candidate resolution\<close>

lemma find_first_in_None_iff:
  "find_first_in cols cs = None \<longleftrightarrow> (\<forall>c \<in> set cs. c \<notin> set cols)"
  by (induction cs) auto

lemma find_first_in_SomeD:
  "find_first_in cols cs = Some c \<Longrightarrow> c \<in> set cs \<and> c \<in> set cols"
  by (induction cs) (auto split: if_splits)

lemma find_first_in_Some_iff:
  "find_first_in cols cs = Some c \<longleftrightarrow>
     (\<exists>pre post. cs = pre @ c # post \<and> c \<in> set cols \<and> (\<forall>x \<in> set pre. x \<notin> set cols))"
proof (induction cs)
  case Nil
  show ?case by simp
next
  case (Cons a cs)
  show ?case
  proof (cases "a \<in> set cols")
    case True
    have "(\<exists>pre post. a # cs = pre @ c # post \<and> c \<in> set cols \<and> (\<forall>x \<in> set pre. x \<notin> set cols))
            \<longleftrightarrow> a = c"
    proof
      assume "\<exists>pre post. a # cs = pre @ c # post \<and> c \<in> set cols \<and> (\<forall>x \<in> set pre. x \<notin> set cols)"
      then obtain pre post where e: "a # cs = pre @ c # post" and n: "\<forall>x \<in> set pre. x \<notin> set cols"
        by blast
      show "a = c"
      proof (cases pre)
        case Nil
        with e show ?thesis by simp
      next
        case (Cons p ps)
        with e have "p = a" by simp
        with Cons n True show ?thesis by simp
      qed
    next
      assume "a = c"
      with True have "a # cs = [] @ c # cs \<and> c \<in> set cols \<and> (\<forall>x \<in> set []. x \<notin> set cols)"
        by simp
      then show "\<exists>pre post. a # cs = pre @ c # post \<and> c \<in> set cols \<and> (\<forall>x \<in> set pre. x \<notin> set cols)"
        by blast
    qed
    with True show ?thesis by simp
  next
    case False
    have "(\<exists>pre post. a # cs = pre @ c # post \<and> c \<in> set cols \<and> (\<forall>x \<in> set pre. x \<notin> set cols))
            \<longleftrightarrow> (\<exists>pre post. cs = pre @ c # post \<and> c \<in> set cols \<and> (\<forall>x \<in> set pre. x \<notin> set cols))"
      (is "?L \<longleftrightarrow> ?R")
    proof
      assume ?L
      then obtain pre post where e: "a # cs = pre @ c # post" and c: "c \<in> set cols"
        and n: "\<forall>x \<in> set pre. x \<notin> set cols"
        by blast
      show ?R
      proof (cases pre)
        case Nil
        with e c False show ?thesis by simp
      next
        case (Cons p ps)
        with e n c have "cs = ps @ c # post \<and> c \<in> set cols \<and> (\<forall>x \<in> set ps. x \<notin> set cols)"
          by simp
        then show ?thesis by blast
      qed
    next
      assume ?R
      then obtain pre post where "cs = pre @ c # post" "c \<in> set cols" "\<forall>x \<in> set pre. x \<notin> set cols"
        by blast
      with False have "a # cs = (a # pre) @ c # post \<and> c \<in> set cols
          \<and> (\<forall>x \<in> set (a # pre). x \<notin> set cols)"
        by simp
      then show ?L by blast
    qed
    with False Cons.IH show ?thesis by simp
  qed
qed

lemma find_first_in_resolve_spec: "find_first_in cols cs = resolve_spec cols cs"
  by (induction cs) (auto simp: resolve_spec_def)

text \<open>
  Claim C7: candidate resolution never fails (it is a total function by structural
  recursion on the finite candidate list) and agrees with the reference definition: it
  returns the first candidate, in candidate-list order, that occurs in the columns under
  equality of strings, and it returns absent exactly when no candidate occurs. For the
  candidates a, b, c and columns that hold b and c but not a, the result is b.
\<close>

theorem find_first_in_total_first_match:
  "find_first_in cols candidates = resolve_spec cols candidates
   \<and> (find_first_in cols candidates = None \<longleftrightarrow> (\<forall>c \<in> set candidates. c \<notin> set cols))
   \<and> (\<forall>r. find_first_in cols candidates = Some r \<longleftrightarrow>
         (\<exists>pre post. candidates = pre @ r # post \<and> r \<in> set cols
            \<and> (\<forall>x \<in> set pre. x \<notin> set cols)))
   \<and> (a \<notin> set cols \<and> b \<in> set cols \<and> c \<in> set cols \<longrightarrow> find_first_in cols [a, b, c] = Some b)"
proof (intro conjI allI impI)
  show "find_first_in cols candidates = resolve_spec cols candidates"
    by (rule find_first_in_resolve_spec)
  show "find_first_in cols candidates = None \<longleftrightarrow> (\<forall>c \<in> set candidates. c \<notin> set cols)"
    by (rule find_first_in_None_iff)
  show "find_first_in cols candidates = Some r \<longleftrightarrow>
         (\<exists>pre post. candidates = pre @ r # post \<and> r \<in> set cols
            \<and> (\<forall>x \<in> set pre. x \<notin> set cols))" for r
    by (rule find_first_in_Some_iff)
  show "find_first_in cols [a, b, c] = Some b"
    if "a \<notin> set cols \<and> b \<in> set cols \<and> c \<in> set cols"
    using that by simp
qed

theorem find_first_in_total_first_match_witness:
  "''a'' \<notin> set [''c'', ''b''] \<and> ''b'' \<in> set [''c'', ''b''] \<and> ''c'' \<in> set [''c'', ''b'']
   \<and> find_first_in [''c'', ''b''] [''a'', ''b'', ''c''] = Some ''b''
   \<and> resolve_spec [''c'', ''b''] [''a'', ''b'', ''c''] = Some ''b''"
  using find_first_in_total_first_match [of "[''c'', ''b'']" "[''a'', ''b'', ''c'']" "''a''" "''b''" "''c''"]
  by simp

subsection \<open>Table lookup\<close>

lemma find_table_None_iff: "find_table ts n = None \<longleftrightarrow> n \<notin> set (map lower ts)"
  by (induction ts) auto

lemma find_table_SomeD: "find_table ts n = Some t \<Longrightarrow> t \<in> set ts \<and> lower t = n"
  by (induction ts) (auto split: if_splits)

lemma lower_Nil_iff: "lower t = [] \<longleftrightarrow> t = []"
  by (simp add: lower_def)

lemma find_table_truthy:
  assumes "n \<noteq> []"
  shows "truthy (find_table ts n) \<longleftrightarrow> n \<in> set (map lower ts)"
proof (cases "find_table ts n")
  case None
  then show ?thesis
    using find_table_None_iff [of ts n] by (simp add: truthy_def)
next
  case (Some t)
  then have "t \<in> set ts" and "lower t = n"
    using find_table_SomeD by blast+
  moreover from this assms have "t \<noteq> []"
    using lower_Nil_iff by blast
  ultimately show ?thesis
    using Some by (auto simp: truthy_def)
qed

lemma optional_table_truthy:
  "n \<noteq> [] \<Longrightarrow> truthy (optional_table ts n) \<longleftrightarrow> n \<in> set (map lower ts)"
  using find_table_truthy [of n ts] by (simp add: optional_table_def truthy_def)

subsection \<open>The mandatory tables\<close>

lemma or_first_not_RuntimeError: "or_first v cols \<noteq> Inl RuntimeError"
  by (simp add: or_first_def split: list.splits)

lemma resolve_missing:
  "''customers'' \<notin> set (map lower (get_tables conn))
      \<or> ''orders'' \<notin> set (map lower (get_tables conn)) \<Longrightarrow> resolve conn = Inl RuntimeError"
  by (simp add: resolve_def Let_def)

lemma find_table_columns_of:
  assumes "name \<in> set (map lower (get_tables conn))" and "name \<noteq> []"
  shows "get_columns conn (find_table (get_tables conn) name) = columns_of conn name"
  using assms find_table_truthy [of name "get_tables conn"]
  by (simp add: columns_of_def optional_columns_def optional_table_def)

lemma resolve_present:
  assumes "''customers'' \<in> set (map lower (get_tables conn))"
    and "''orders'' \<in> set (map lower (get_tables conn))"
  shows "resolve conn =
     (case or_first (find_first_in (columns_of conn ''customers'') CUSTOMER_ID_CANDIDATES)
             (columns_of conn ''customers'') of
        Inl e \<Rightarrow> Inl e
      | Inr cid \<Rightarrow>
          (case or_first (find_first_in (columns_of conn ''orders'') ORDER_ID_CANDIDATES)
                  (columns_of conn ''orders'') of
             Inl e \<Rightarrow> Inl e
           | Inr oid \<Rightarrow> Inr (bind_roles conn cid oid)))"
proof -
  have c: "get_columns conn (find_table (get_tables conn) ''customers'') = columns_of conn ''customers''"
    using assms(1) by (intro find_table_columns_of) simp_all
  have d: "get_columns conn (find_table (get_tables conn) ''orders'') = columns_of conn ''orders''"
    using assms(2) by (intro find_table_columns_of) simp_all
  from assms have "resolve conn =
     (case or_first (find_first_in (get_columns conn (find_table (get_tables conn) ''customers'')) CUSTOMER_ID_CANDIDATES)
             (get_columns conn (find_table (get_tables conn) ''customers'')) of
        Inl e \<Rightarrow> Inl e
      | Inr cid \<Rightarrow>
          (case or_first (find_first_in (get_columns conn (find_table (get_tables conn) ''orders'')) ORDER_ID_CANDIDATES)
                  (get_columns conn (find_table (get_tables conn) ''orders'')) of
             Inl e \<Rightarrow> Inl e
           | Inr oid \<Rightarrow> Inr (bind_roles conn cid oid)))"
    unfolding resolve_def Let_def by (simp only: if_False simp_thms)
  then show ?thesis by (simp only: c d)
qed

lemma resolve_RuntimeError_iff:
  "resolve conn = Inl RuntimeError \<longleftrightarrow>
     (''customers'' \<notin> set (map lower (get_tables conn))
      \<or> ''orders'' \<notin> set (map lower (get_tables conn)))"
proof (cases "''customers'' \<notin> set (map lower (get_tables conn))
      \<or> ''orders'' \<notin> set (map lower (get_tables conn))")
  case True
  then show ?thesis using resolve_missing by blast
next
  case False
  then have p: "''customers'' \<in> set (map lower (get_tables conn))"
    "''orders'' \<in> set (map lower (get_tables conn))" by blast+
  have "resolve conn \<noteq> Inl RuntimeError"
    unfolding resolve_present [OF p]
    using or_first_not_RuntimeError
    by (auto split: sum.splits)
  with False show ?thesis by blast
qed

lemma build_query_Inl_iff: "build_query conn = Inl e \<longleftrightarrow> resolve conn = Inl e"
  by (simp add: build_query_def split: sum.splits)

lemma lower_Customers: "lower ''Customers'' = ''customers''" by code_simp
lemma lower_products: "lower ''products'' = ''products''" by code_simp
lemma lower_reviews: "lower ''reviews'' = ''reviews''" by code_simp

text \<open>
  Claim C2: \<^verbatim>\<open>build_query\<close> raises the error for an insufficient schema (the
  \<^verbatim>\<open>RuntimeError\<close> of line 40) if and only if no table name lower-cases to
  \<^verbatim>\<open>customers\<close> or none lower-cases to \<^verbatim>\<open>orders\<close>, whatever other tables exist;
  when it raises, no query string is returned.
\<close>

theorem build_query_raises_iff_mandatory_missing:
  "(build_query conn = Inl RuntimeError \<longleftrightarrow>
      (''customers'' \<notin> set (map lower (get_tables conn))
       \<or> ''orders'' \<notin> set (map lower (get_tables conn))))
   \<and> (build_query conn = Inl RuntimeError \<longrightarrow> (\<forall>q. build_query conn \<noteq> Inr q))"
proof
  show "build_query conn = Inl RuntimeError \<longleftrightarrow>
      (''customers'' \<notin> set (map lower (get_tables conn))
       \<or> ''orders'' \<notin> set (map lower (get_tables conn)))"
    using resolve_RuntimeError_iff [of conn] build_query_Inl_iff [of conn RuntimeError]
    by blast
  show "build_query conn = Inl RuntimeError \<longrightarrow> (\<forall>q. build_query conn \<noteq> Inr q)"
    by simp
qed

theorem build_query_raises_iff_mandatory_missing_witness:
  "''orders'' \<notin> set (map lower (get_tables
      [(''Customers'', [''id'', ''name'']), (''products'', [''id'']), (''reviews'', [''id''])]))
   \<and> build_query
      [(''Customers'', [''id'', ''name'']), (''products'', [''id'']), (''reviews'', [''id''])]
     = Inl RuntimeError"
proof -
  have h: "''orders'' \<notin> set (map lower (get_tables
      [(''Customers'', [''id'', ''name'']), (''products'', [''id'']), (''reviews'', [''id''])]))"
    by (simp add: get_tables_def lower_Customers lower_products lower_reviews)
  with build_query_raises_iff_mandatory_missing
    [of "[(''Customers'', [''id'', ''name'']), (''products'', [''id'']), (''reviews'', [''id''])]"]
  show ?thesis by blast
qed

subsection \<open>The row limit\<close>

lemma build_query_InrD:
  "build_query conn = Inr q \<Longrightarrow> \<exists>b. resolve conn = Inr b \<and> q = render (select_tier b) b"
  by (auto simp: build_query_def split: sum.splits)

lemma render_limit:
  "\<exists>ls ind. render t b = text_block (ls @ [ind @ ''LIMIT 50;'', ind])
           \<and> ind \<noteq> [] \<and> set ind = {CHR '' ''}"
proof (cases t)
  case Full
  have "render t b = text_block ((full_select b @ full_from b) @ [''        '' @ ''LIMIT 50;'', ''        ''])"
    using Full by (simp add: render_def full_sql_def)
  moreover have "''        '' \<noteq> [] \<and> set ''        '' = {CHR '' ''}" by simp
  ultimately show ?thesis by blast
next
  case Degraded
  have "render t b = text_block ((degraded_select b @ degraded_from b)
      @ [''        '' @ ''LIMIT 50;'', ''        ''])"
    using Degraded by (simp add: render_def degraded_sql_def)
  moreover have "''        '' \<noteq> [] \<and> set ''        '' = {CHR '' ''}" by simp
  ultimately show ?thesis by blast
next
  case Minimal
  have "render t b = text_block ((minimal_select b @ minimal_from b)
      @ [''    '' @ ''LIMIT 50;'', ''    ''])"
    using Minimal by (simp add: render_def minimal_sql_def)
  moreover have "''    '' \<noteq> [] \<and> set ''    '' = {CHR '' ''}" by simp
  ultimately show ?thesis by blast
qed

lemma build_query_scenario_A:
  "build_query scenario_A =
     Inr (text_block
      [''    SELECT'',
       ''        c.customer_id AS customer_id,'',
       ''        c.name AS customer_name,'',
       ''        o.order_id AS order_id,'',
       ''        o.order_date,'',
       ''        o.total_amount AS total_amount'',
       ''    FROM customers c'',
       ''    LEFT JOIN orders o ON c.customer_id = o.customer_id'',
       ''    LIMIT 50;'',
       ''    ''])"
  by code_simp

text \<open>
  Claim C8: every query text that \<^verbatim>\<open>build_query\<close> returns, whichever tier rendered it,
  ends with the line \<^verbatim>\<open>LIMIT 50;\<close>, followed only by the line break and the
  indentation that close the literal.
\<close>

theorem build_query_limit_50:
  assumes "build_query conn = Inr q"
  shows "\<exists>ls ind. q = text_block (ls @ [ind @ ''LIMIT 50;'', ind])
           \<and> ind \<noteq> [] \<and> set ind = {CHR '' ''}
           \<and> suffix (''LIMIT 50;'' @ CHR 0x0A # ind) q"
proof -
  from assms obtain b where q: "q = render (select_tier b) b"
    using build_query_InrD by blast
  from render_limit [of "select_tier b" b] obtain ls ind
    where r: "render (select_tier b) b = text_block (ls @ [ind @ ''LIMIT 50;'', ind])"
      and i: "ind \<noteq> []" "set ind = {CHR '' ''}"
    by blast
  have "text_block (ls @ [ind @ ''LIMIT 50;'', ind])
      = (text_block ls @ CHR 0x0A # ind) @ (''LIMIT 50;'' @ CHR 0x0A # ind)"
    by (simp add: text_block_def)
  then have "suffix (''LIMIT 50;'' @ CHR 0x0A # ind) (text_block (ls @ [ind @ ''LIMIT 50;'', ind]))"
    unfolding suffix_def by blast
  with q r i show ?thesis by metis
qed

theorem build_query_limit_50_witness:
  "\<exists>ls ind.
     text_block
      [''    SELECT'',
       ''        c.customer_id AS customer_id,'',
       ''        c.name AS customer_name,'',
       ''        o.order_id AS order_id,'',
       ''        o.order_date,'',
       ''        o.total_amount AS total_amount'',
       ''    FROM customers c'',
       ''    LEFT JOIN orders o ON c.customer_id = o.customer_id'',
       ''    LIMIT 50;'',
       ''    ''] = text_block (ls @ [ind @ ''LIMIT 50;'', ind])
     \<and> ind \<noteq> [] \<and> set ind = {CHR '' ''}
     \<and> suffix (''LIMIT 50;'' @ CHR 0x0A # ind)
         (text_block
          [''    SELECT'',
           ''        c.customer_id AS customer_id,'',
           ''        c.name AS customer_name,'',
           ''        o.order_id AS order_id,'',
           ''        o.order_date,'',
           ''        o.total_amount AS total_amount'',
           ''    FROM customers c'',
           ''    LEFT JOIN orders o ON c.customer_id = o.customer_id'',
           ''    LIMIT 50;'',
           ''    ''])"
  by (rule build_query_limit_50 [OF build_query_scenario_A])

subsection \<open>What a successful resolution binds\<close>

lemma candidates_nonempty:
  "[] \<notin> set PRODUCT_NAME_CANDIDATES" "[] \<notin> set ORDER_TOTAL_CANDIDATES"
  "[] \<notin> set REVIEW_RATING_CANDIDATES" "[] \<notin> set ORDER_ID_CANDIDATES"
  "[] \<notin> set PRODUCT_ID_CANDIDATES" "[] \<notin> set CUSTOMER_ID_CANDIDATES"
  "[] \<notin> set QUANTITY_CANDIDATES" "[] \<notin> set SUBTOTAL_CANDIDATES"
  by (simp_all add: PRODUCT_NAME_CANDIDATES_def ORDER_TOTAL_CANDIDATES_def
      REVIEW_RATING_CANDIDATES_def ORDER_ID_CANDIDATES_def PRODUCT_ID_CANDIDATES_def
      CUSTOMER_ID_CANDIDATES_def QUANTITY_CANDIDATES_def SUBTOTAL_CANDIDATES_def)

lemma find_first_in_Nil [simp]: "find_first_in [] cs = None"
  by (induction cs) simp_all

lemma or_first_find:
  assumes "[] \<notin> set cs"
  shows "or_first (find_first_in cols cs) cols =
     (if cols = [] then Inl IndexError
      else Inr (case find_first_in cols cs of None \<Rightarrow> hd cols | Some c \<Rightarrow> c))"
proof (cases "find_first_in cols cs")
  case None
  then show ?thesis by (cases cols) (simp_all add: or_first_def truthy_def)
next
  case (Some c)
  then have "c \<in> set cols" using find_first_in_SomeD by blast
  then have "cols \<noteq> []" by auto
  moreover from Some have "c \<in> set cs" using find_first_in_SomeD by blast
  with assms have "truthy (Some c)" by (auto simp: truthy_def)
  ultimately show ?thesis using Some by (simp add: or_first_def fmt_def)
qed

lemma or_default_find:
  assumes "[] \<notin> set cs"
  shows "or_default (find_first_in cols cs) d =
     (case find_first_in cols cs of None \<Rightarrow> d | Some c \<Rightarrow> c)"
proof (cases "find_first_in cols cs")
  case None
  then show ?thesis by (simp add: or_default_def truthy_def)
next
  case (Some c)
  then have "c \<in> set cs" using find_first_in_SomeD by blast
  with assms have "truthy (Some c)" by (auto simp: truthy_def)
  with Some show ?thesis by (simp add: or_default_def fmt_def)
qed

lemma resolve_product_id_eq:
  "resolve_product_id oi_cols orders_cols =
     (case find_first_in oi_cols PRODUCT_ID_CANDIDATES of
        None \<Rightarrow> find_first_in orders_cols PRODUCT_ID_CANDIDATES
      | Some c \<Rightarrow> Some c)"
proof (cases "oi_cols = []")
  case True
  then show ?thesis by (simp add: resolve_product_id_def truthy_def)
next
  case False
  show ?thesis
  proof (cases "find_first_in oi_cols PRODUCT_ID_CANDIDATES")
    case None
    with False show ?thesis by (simp add: resolve_product_id_def truthy_def)
  next
    case (Some c)
    then have "c \<in> set PRODUCT_ID_CANDIDATES" using find_first_in_SomeD by blast
    with candidates_nonempty(5) have "truthy (Some c)" by (auto simp: truthy_def)
    with False Some show ?thesis by (simp add: resolve_product_id_def)
  qed
qed

lemma bind_roles_tables:
  "t_customers (bind_roles conn cid oid) = find_table (get_tables conn) ''customers''"
  "t_orders (bind_roles conn cid oid) = find_table (get_tables conn) ''orders''"
  "t_products (bind_roles conn cid oid) = optional_table (get_tables conn) ''products''"
  "t_order_items (bind_roles conn cid oid) = optional_table (get_tables conn) ''order_items''"
  "t_reviews (bind_roles conn cid oid) = optional_table (get_tables conn) ''reviews''"
  "cust_id_col (bind_roles conn cid oid) = cid"
  "order_id_col (bind_roles conn cid oid) = oid"
  by (simp_all add: bind_roles_def Let_def)

lemma bind_roles_columns:
  "product_name_col (bind_roles conn cid oid) =
     find_first_in (columns_of conn ''products'') PRODUCT_NAME_CANDIDATES"
  "quantity_col (bind_roles conn cid oid) =
     find_first_in (columns_of conn ''order_items'') QUANTITY_CANDIDATES"
  "subtotal_col (bind_roles conn cid oid) =
     find_first_in (columns_of conn ''order_items'') SUBTOTAL_CANDIDATES"
  "rating_col (bind_roles conn cid oid) =
     find_first_in (columns_of conn ''reviews'') REVIEW_RATING_CANDIDATES"
  by (simp_all add: bind_roles_def Let_def columns_of_def)

lemma bind_roles_orders:
  assumes "''orders'' \<in> set (map lower (get_tables conn))"
  shows "order_total_col (bind_roles conn cid oid) =
           find_first_in (columns_of conn ''orders'') ORDER_TOTAL_CANDIDATES"
    and "product_id_col (bind_roles conn cid oid) =
           (case find_first_in (columns_of conn ''order_items'') PRODUCT_ID_CANDIDATES of
              None \<Rightarrow> find_first_in (columns_of conn ''orders'') PRODUCT_ID_CANDIDATES
            | Some c \<Rightarrow> Some c)"
proof -
  have d: "get_columns conn (find_table (get_tables conn) ''orders'') = columns_of conn ''orders''"
    using assms by (intro find_table_columns_of) simp_all
  show "order_total_col (bind_roles conn cid oid) =
           find_first_in (columns_of conn ''orders'') ORDER_TOTAL_CANDIDATES"
    by (simp add: bind_roles_def Let_def d)
  show "product_id_col (bind_roles conn cid oid) =
           (case find_first_in (columns_of conn ''order_items'') PRODUCT_ID_CANDIDATES of
              None \<Rightarrow> find_first_in (columns_of conn ''orders'') PRODUCT_ID_CANDIDATES
            | Some c \<Rightarrow> Some c)"
    by (simp add: bind_roles_def Let_def d resolve_product_id_eq columns_of_def
        split: option.splits)
qed

lemma resolve_eq:
  assumes "''customers'' \<in> set (map lower (get_tables conn))"
    and "''orders'' \<in> set (map lower (get_tables conn))"
  shows "resolve conn =
     (if columns_of conn ''customers'' = [] \<or> columns_of conn ''orders'' = []
      then Inl IndexError
      else Inr (bind_roles conn
             (case find_first_in (columns_of conn ''customers'') CUSTOMER_ID_CANDIDATES of
                None \<Rightarrow> hd (columns_of conn ''customers'') | Some c \<Rightarrow> c)
             (case find_first_in (columns_of conn ''orders'') ORDER_ID_CANDIDATES of
                None \<Rightarrow> hd (columns_of conn ''orders'') | Some c \<Rightarrow> c)))"
  unfolding resolve_present [OF assms]
    or_first_find [OF candidates_nonempty(6)] or_first_find [OF candidates_nonempty(4)]
  by simp

lemma resolve_InrD:
  assumes "resolve conn = Inr b"
  shows "''customers'' \<in> set (map lower (get_tables conn))"
    and "''orders'' \<in> set (map lower (get_tables conn))"
    and "columns_of conn ''customers'' \<noteq> []"
    and "columns_of conn ''orders'' \<noteq> []"
    and "b = bind_roles conn
             (case find_first_in (columns_of conn ''customers'') CUSTOMER_ID_CANDIDATES of
                None \<Rightarrow> hd (columns_of conn ''customers'') | Some c \<Rightarrow> c)
             (case find_first_in (columns_of conn ''orders'') ORDER_ID_CANDIDATES of
                None \<Rightarrow> hd (columns_of conn ''orders'') | Some c \<Rightarrow> c)"
proof -
  show p: "''customers'' \<in> set (map lower (get_tables conn))"
    using assms resolve_missing [of conn] by fastforce
  show q: "''orders'' \<in> set (map lower (get_tables conn))"
    using assms resolve_missing [of conn] by fastforce
  note e = resolve_eq [OF p q]
  show "columns_of conn ''customers'' \<noteq> []"
    using assms e by (auto split: if_splits)
  show "columns_of conn ''orders'' \<noteq> []"
    using assms e by (auto split: if_splits)
  show "b = bind_roles conn
             (case find_first_in (columns_of conn ''customers'') CUSTOMER_ID_CANDIDATES of
                None \<Rightarrow> hd (columns_of conn ''customers'') | Some c \<Rightarrow> c)
             (case find_first_in (columns_of conn ''orders'') ORDER_ID_CANDIDATES of
                None \<Rightarrow> hd (columns_of conn ''orders'') | Some c \<Rightarrow> c)"
    using assms e by (auto split: if_splits)
qed

lemma present_table:
  assumes "n \<in> set (map lower ts)"
  shows "\<exists>t. find_table ts n = Some t \<and> optional_table ts n = Some t \<and> lower t = n \<and> t \<in> set ts"
proof -
  from assms have "find_table ts n \<noteq> None" using find_table_None_iff by blast
  then obtain t where t: "find_table ts n = Some t" by blast
  with assms find_table_SomeD [OF t] show ?thesis by (simp add: optional_table_def)
qed

lemma absent_table: "n \<notin> set (map lower ts) \<Longrightarrow> optional_table ts n = None"
  by (simp add: optional_table_def)

lemma columns_of_absent: "n \<notin> set (map lower (get_tables conn)) \<Longrightarrow> columns_of conn n = []"
  by (simp add: columns_of_def absent_table optional_columns_def truthy_def)

lemma columns_of_present:
  assumes "columns_of conn n \<noteq> []"
  shows "n \<in> set (map lower (get_tables conn))"
  using assms columns_of_absent by blast

lemma found_present:
  assumes "find_first_in (columns_of conn n) cs \<noteq> None"
  shows "n \<in> set (map lower (get_tables conn))"
proof -
  from assms have "columns_of conn n \<noteq> []" by auto
  then show ?thesis by (rule columns_of_present)
qed

lemma truthy_SomeD: "truthy v \<Longrightarrow> \<exists>s. v = Some s \<and> s \<noteq> [] \<and> fmt v = s"
  by (cases v) (simp_all add: truthy_def fmt_def)

lemma select_tier_Full_iff:
  "select_tier b = Full \<longleftrightarrow> truthy (t_order_items b) \<and> truthy (product_name_col b)"
  by (simp add: select_tier_def)

lemma select_tier_Degraded_iff:
  "select_tier b = Degraded \<longleftrightarrow>
     \<not> truthy (t_order_items b) \<and> truthy (product_id_col b) \<and> truthy (t_products b)
     \<and> truthy (product_name_col b)"
  by (auto simp: select_tier_def)

lemma build_query_resolved:
  "resolve conn = Inr b \<Longrightarrow> build_query conn = Inr (render (select_tier b) b)"
  by (simp add: build_query_def)

lemma resolved_tables:
  assumes "resolve conn = Inr b"
  shows "\<exists>tc tor. find_table (get_tables conn) ''customers'' = Some tc
           \<and> find_table (get_tables conn) ''orders'' = Some tor
           \<and> t_customers b = Some tc \<and> t_orders b = Some tor"
proof -
  note d = resolve_InrD [OF assms]
  from present_table [OF d(1)] obtain tc
    where tc: "find_table (get_tables conn) ''customers'' = Some tc" by blast
  from present_table [OF d(2)] obtain tor
    where tor: "find_table (get_tables conn) ''orders'' = Some tor" by blast
  have "t_customers b = Some tc" by (subst d(5)) (simp only: bind_roles_tables tc)
  moreover have "t_orders b = Some tor" by (subst d(5)) (simp only: bind_roles_tables tor)
  ultimately show ?thesis using tc tor by blast
qed

lemma resolved_optional:
  assumes "resolve conn = Inr b"
  shows "t_products b = optional_table (get_tables conn) ''products''"
    and "t_order_items b = optional_table (get_tables conn) ''order_items''"
    and "t_reviews b = optional_table (get_tables conn) ''reviews''"
    and "product_name_col b = find_first_in (columns_of conn ''products'') PRODUCT_NAME_CANDIDATES"
    and "product_id_col b =
           (case find_first_in (columns_of conn ''order_items'') PRODUCT_ID_CANDIDATES of
              None \<Rightarrow> find_first_in (columns_of conn ''orders'') PRODUCT_ID_CANDIDATES
            | Some c \<Rightarrow> Some c)"
    and "order_total_col b = find_first_in (columns_of conn ''orders'') ORDER_TOTAL_CANDIDATES"
proof -
  note d = resolve_InrD [OF assms]
  show "t_products b = optional_table (get_tables conn) ''products''"
    by (subst d(5)) (simp only: bind_roles_tables)
  show "t_order_items b = optional_table (get_tables conn) ''order_items''"
    by (subst d(5)) (simp only: bind_roles_tables)
  show "t_reviews b = optional_table (get_tables conn) ''reviews''"
    by (subst d(5)) (simp only: bind_roles_tables)
  show "product_name_col b = find_first_in (columns_of conn ''products'') PRODUCT_NAME_CANDIDATES"
    by (subst d(5)) (simp only: bind_roles_columns)
  show "product_id_col b =
           (case find_first_in (columns_of conn ''order_items'') PRODUCT_ID_CANDIDATES of
              None \<Rightarrow> find_first_in (columns_of conn ''orders'') PRODUCT_ID_CANDIDATES
            | Some c \<Rightarrow> Some c)"
    by (subst d(5)) (simp only: bind_roles_orders [OF d(2)])
  show "order_total_col b = find_first_in (columns_of conn ''orders'') ORDER_TOTAL_CANDIDATES"
    by (subst d(5)) (simp only: bind_roles_orders [OF d(2)])
qed

lemma resolved_products_table:
  assumes "resolve conn = Inr b" and "truthy (product_name_col b)"
  shows "\<exists>tp. find_table (get_tables conn) ''products'' = Some tp \<and> t_products b = Some tp"
proof -
  from assms(2) have "truthy (find_first_in (columns_of conn ''products'') PRODUCT_NAME_CANDIDATES)"
    by (simp only: resolved_optional(4) [OF assms(1)])
  then have "find_first_in (columns_of conn ''products'') PRODUCT_NAME_CANDIDATES \<noteq> None"
    by (auto simp: truthy_def split: option.splits)
  then have "''products'' \<in> set (map lower (get_tables conn))" by (rule found_present)
  from present_table [OF this] resolved_optional(1) [OF assms(1)] show ?thesis by auto
qed

lemma resolved_order_items_table:
  assumes "resolve conn = Inr b" and "truthy (t_order_items b)"
  shows "\<exists>toi. find_table (get_tables conn) ''order_items'' = Some toi \<and> t_order_items b = Some toi"
proof -
  from assms(2) have "truthy (optional_table (get_tables conn) ''order_items'')"
    by (simp only: resolved_optional(2) [OF assms(1)])
  then have "''order_items'' \<in> set (map lower (get_tables conn))"
    using optional_table_truthy [of "''order_items''" "get_tables conn"] by simp
  from present_table [OF this] resolved_optional(2) [OF assms(1)] show ?thesis by auto
qed

lemma product_key_eq:
  assumes "resolve conn = Inr b"
  shows "or_default (product_id_col b) ''product_id'' =
     (case find_first_in (columns_of conn ''order_items'') PRODUCT_ID_CANDIDATES of
        None \<Rightarrow> (case find_first_in (columns_of conn ''orders'') PRODUCT_ID_CANDIDATES of
                   None \<Rightarrow> ''product_id'' | Some c \<Rightarrow> c)
      | Some c \<Rightarrow> c)"
proof (cases "find_first_in (columns_of conn ''order_items'') PRODUCT_ID_CANDIDATES")
  case None
  then have "product_id_col b = find_first_in (columns_of conn ''orders'') PRODUCT_ID_CANDIDATES"
    using resolved_optional(5) [OF assms] by simp
  then have "or_default (product_id_col b) ''product_id'' =
      (case find_first_in (columns_of conn ''orders'') PRODUCT_ID_CANDIDATES of
         None \<Rightarrow> ''product_id'' | Some c \<Rightarrow> c)"
    by (simp only: or_default_find [OF candidates_nonempty(5)])
  with None show ?thesis by simp
next
  case (Some c)
  then have "product_id_col b = find_first_in (columns_of conn ''order_items'') PRODUCT_ID_CANDIDATES"
    using resolved_optional(5) [OF assms] by simp
  then have "or_default (product_id_col b) ''product_id'' =
      (case find_first_in (columns_of conn ''order_items'') PRODUCT_ID_CANDIDATES of
         None \<Rightarrow> ''product_id'' | Some c \<Rightarrow> c)"
    by (simp only: or_default_find [OF candidates_nonempty(5)])
  with Some show ?thesis by simp
qed

subsection \<open>Table names in the rendered joins\<close>

text \<open>
  Claim C1 (the code departs from it): every table name after \<^verbatim>\<open>FROM\<close> or
  \<^verbatim>\<open>JOIN\<close> should be a table of the snapshot. Scenario B of the specification has the
  mandatory tables and a products table but no reviews table. The Degraded tier is
  rendered, and its last join names the table \<^verbatim>\<open>None\<close>, which the snapshot does not
  hold: line 122 prints \<^verbatim>\<open>t_reviews\<close> without testing it.
\<close>

theorem build_query_scenario_B_joins_None:
  "build_query scenario_B =
     Inr (text_block
      [''        SELECT'',
       ''            c.customer_id AS customer_id,'',
       ''            c.name AS customer_name,'',
       ''            p.name AS product_name,'',
       ''            o.order_id AS order_id,'',
       ''            o.order_date,'',
       ''            1 AS quantity,'',
       ''            o.total_amount AS subtotal,'',
       ''            NULL AS rating'',
       ''        FROM customers c'',
       ''        JOIN orders o ON c.customer_id = o.customer_id'',
       ''        LEFT JOIN products p ON o.product_id = p.product_id'',
       ''        LEFT JOIN None r ON r.customer_id = c.customer_id AND r.product_id = p.product_id'',
       ''        LIMIT 50;'',
       ''        ''])
   \<and> ''None'' \<notin> set (get_tables scenario_B)
   \<and> ''customers'' \<in> set (map lower (get_tables scenario_B))
   \<and> ''orders'' \<in> set (map lower (get_tables scenario_B))"
  by code_simp

subsection \<open>Role bindings\<close>

text \<open>
  Claim C3 as stated fails for the two id roles: with customers columns
  \<^verbatim>\<open>cid, full_name\<close> no customer-id candidate occurs, yet the role is bound to
  \<^verbatim>\<open>cid\<close>, and likewise the order-id role to \<^verbatim>\<open>oid\<close>.
\<close>

theorem customer_id_bound_to_non_candidate:
  "resolve_spec (columns_of schema_unmatched_ids ''customers'') CUSTOMER_ID_CANDIDATES = None
   \<and> map_sum id cust_id_col (resolve schema_unmatched_ids) = Inr ''cid''
   \<and> resolve_spec (columns_of schema_unmatched_ids ''orders'') ORDER_ID_CANDIDATES = None
   \<and> map_sum id order_id_col (resolve schema_unmatched_ids) = Inr ''oid''"
  by code_simp

lemma resolve_schema_unmatched_ids:
  "resolve schema_unmatched_ids = Inr (bind_roles schema_unmatched_ids ''cid'' ''oid'')"
  by code_simp

text \<open>
  Claim C3, amended: whenever resolution succeeds, the customer-id and order-id roles are
  bound to the first candidate present in the columns of their table and, when no
  candidate is present, to the first column of that table (lines 62 and 63); product-id
  is bound to the first candidate present in the order_items columns, failing that in the
  orders columns, and is absent otherwise; product-name, quantity, subtotal, order-total
  and rating are bound to the first candidate present in the columns of their table and
  are absent when none is.
\<close>

theorem role_binding_first_candidate_or_first_column:
  assumes "resolve conn = Inr b"
  shows "columns_of conn ''customers'' \<noteq> [] \<and> columns_of conn ''orders'' \<noteq> []
    \<and> cust_id_col b =
        (case resolve_spec (columns_of conn ''customers'') CUSTOMER_ID_CANDIDATES of
           None \<Rightarrow> hd (columns_of conn ''customers'') | Some c \<Rightarrow> c)
    \<and> order_id_col b =
        (case resolve_spec (columns_of conn ''orders'') ORDER_ID_CANDIDATES of
           None \<Rightarrow> hd (columns_of conn ''orders'') | Some c \<Rightarrow> c)
    \<and> product_id_col b =
        (case resolve_spec (columns_of conn ''order_items'') PRODUCT_ID_CANDIDATES of
           None \<Rightarrow> resolve_spec (columns_of conn ''orders'') PRODUCT_ID_CANDIDATES
         | Some c \<Rightarrow> Some c)
    \<and> product_name_col b = resolve_spec (columns_of conn ''products'') PRODUCT_NAME_CANDIDATES
    \<and> quantity_col b = resolve_spec (columns_of conn ''order_items'') QUANTITY_CANDIDATES
    \<and> subtotal_col b = resolve_spec (columns_of conn ''order_items'') SUBTOTAL_CANDIDATES
    \<and> order_total_col b = resolve_spec (columns_of conn ''orders'') ORDER_TOTAL_CANDIDATES
    \<and> rating_col b = resolve_spec (columns_of conn ''reviews'') REVIEW_RATING_CANDIDATES"
proof -
  note d = resolve_InrD [OF assms]
  note s = find_first_in_resolve_spec [symmetric]
  have "cust_id_col b =
        (case resolve_spec (columns_of conn ''customers'') CUSTOMER_ID_CANDIDATES of
           None \<Rightarrow> hd (columns_of conn ''customers'') | Some c \<Rightarrow> c)"
    unfolding s by (subst d(5)) (simp only: bind_roles_tables)
  moreover have "order_id_col b =
        (case resolve_spec (columns_of conn ''orders'') ORDER_ID_CANDIDATES of
           None \<Rightarrow> hd (columns_of conn ''orders'') | Some c \<Rightarrow> c)"
    unfolding s by (subst d(5)) (simp only: bind_roles_tables)
  moreover have "product_id_col b =
        (case resolve_spec (columns_of conn ''order_items'') PRODUCT_ID_CANDIDATES of
           None \<Rightarrow> resolve_spec (columns_of conn ''orders'') PRODUCT_ID_CANDIDATES
         | Some c \<Rightarrow> Some c)"
    unfolding s by (subst d(5)) (simp only: bind_roles_orders [OF d(2)])
  moreover have "product_name_col b = resolve_spec (columns_of conn ''products'') PRODUCT_NAME_CANDIDATES"
    unfolding s by (subst d(5)) (simp only: bind_roles_columns)
  moreover have "quantity_col b = resolve_spec (columns_of conn ''order_items'') QUANTITY_CANDIDATES"
    unfolding s by (subst d(5)) (simp only: bind_roles_columns)
  moreover have "subtotal_col b = resolve_spec (columns_of conn ''order_items'') SUBTOTAL_CANDIDATES"
    unfolding s by (subst d(5)) (simp only: bind_roles_columns)
  moreover have "order_total_col b = resolve_spec (columns_of conn ''orders'') ORDER_TOTAL_CANDIDATES"
    unfolding s by (subst d(5)) (simp only: bind_roles_orders [OF d(2)])
  moreover have "rating_col b = resolve_spec (columns_of conn ''reviews'') REVIEW_RATING_CANDIDATES"
    unfolding s by (subst d(5)) (simp only: bind_roles_columns)
  ultimately show ?thesis using d(3,4) by blast
qed

theorem role_binding_first_candidate_or_first_column_witness:
  "cust_id_col (bind_roles schema_unmatched_ids ''cid'' ''oid'') = ''cid''
   \<and> order_id_col (bind_roles schema_unmatched_ids ''cid'' ''oid'') = ''oid''
   \<and> product_id_col (bind_roles schema_unmatched_ids ''cid'' ''oid'') = None
   \<and> order_total_col (bind_roles schema_unmatched_ids ''cid'' ''oid'') = None"
proof -
  have c: "columns_of schema_unmatched_ids ''customers'' = [''cid'', ''full_name'']"
    by code_simp
  have d: "columns_of schema_unmatched_ids ''orders'' = [''oid'', ''cid'', ''placed_on'']"
    by code_simp
  have e: "columns_of schema_unmatched_ids ''order_items'' = []"
    by code_simp
  have f: "resolve_spec [''cid'', ''full_name''] CUSTOMER_ID_CANDIDATES = None"
    "resolve_spec [''oid'', ''cid'', ''placed_on''] ORDER_ID_CANDIDATES = None"
    "resolve_spec [] PRODUCT_ID_CANDIDATES = None"
    "resolve_spec [''oid'', ''cid'', ''placed_on''] PRODUCT_ID_CANDIDATES = None"
    "resolve_spec [''oid'', ''cid'', ''placed_on''] ORDER_TOTAL_CANDIDATES = None"
    by code_simp+
  from role_binding_first_candidate_or_first_column [OF resolve_schema_unmatched_ids]
  show ?thesis unfolding c d e by (simp add: f)
qed

subsection \<open>The join lines of the Full and Degraded tiers\<close>

lemma full_from_explicit:
  assumes "t_customers b = Some tc" "t_orders b = Some tor" "t_order_items b = Some toi"
    "t_products b = Some tp"
  shows "full_from b =
     [''        FROM '' @ tc @ '' c'',
      ''        JOIN '' @ tor @ '' o ON c.'' @ cust_id_col b @ '' = o.customer_id'',
      ''        JOIN '' @ toi @ '' oi ON o.'' @ order_id_col b @ '' = oi.order_id'',
      ''        LEFT JOIN '' @ tp @ '' p ON oi.product_id = p.''
        @ or_default (product_id_col b) ''product_id'',
      ''        LEFT JOIN '' @ fmt (t_reviews b) @ '' r ON r.customer_id = c.'' @ cust_id_col b
        @ '' AND r.product_id = p.'' @ or_default (product_id_col b) ''product_id'']"
  using assms by (simp add: full_from_def fmt_def)

lemma degraded_from_explicit:
  assumes "t_customers b = Some tc" "t_orders b = Some tor" "t_products b = Some tp"
    "product_id_col b = Some k"
  shows "degraded_from b =
     [''        FROM '' @ tc @ '' c'',
      ''        JOIN '' @ tor @ '' o ON c.'' @ cust_id_col b @ '' = o.customer_id'',
      ''        LEFT JOIN '' @ tp @ '' p ON o.'' @ k @ '' = p.'' @ k,
      ''        LEFT JOIN '' @ fmt (t_reviews b) @ '' r ON r.customer_id = c.'' @ cust_id_col b
        @ '' AND r.product_id = p.'' @ k]"
  using assms by (simp add: degraded_from_def fmt_def)

lemma full_tier_tables:
  assumes "resolve conn = Inr b" and "select_tier b = Full"
  shows "\<exists>tc tor toi tp.
           find_table (get_tables conn) ''customers'' = Some tc
         \<and> find_table (get_tables conn) ''orders'' = Some tor
         \<and> find_table (get_tables conn) ''order_items'' = Some toi
         \<and> find_table (get_tables conn) ''products'' = Some tp
         \<and> t_customers b = Some tc \<and> t_orders b = Some tor
         \<and> t_order_items b = Some toi \<and> t_products b = Some tp"
proof -
  from assms(2) have t: "truthy (t_order_items b)" "truthy (product_name_col b)"
    by (simp_all add: select_tier_Full_iff)
  from resolved_tables [OF assms(1)] resolved_order_items_table [OF assms(1) t(1)]
    resolved_products_table [OF assms(1) t(2)]
  show ?thesis by blast
qed

lemma degraded_tier_tables:
  assumes "resolve conn = Inr b" and "select_tier b = Degraded"
  shows "\<exists>tc tor tp k.
           find_table (get_tables conn) ''customers'' = Some tc
         \<and> find_table (get_tables conn) ''orders'' = Some tor
         \<and> find_table (get_tables conn) ''products'' = Some tp
         \<and> t_customers b = Some tc \<and> t_orders b = Some tor \<and> t_products b = Some tp
         \<and> product_id_col b = Some k"
proof -
  from assms(2) have t: "truthy (product_id_col b)" "truthy (product_name_col b)"
    by (simp_all add: select_tier_Degraded_iff)
  from truthy_SomeD [OF t(1)] obtain k where "product_id_col b = Some k" by blast
  with resolved_tables [OF assms(1)] resolved_products_table [OF assms(1) t(2)]
  show ?thesis by blast
qed

lemma resolve_schema_products_own_id:
  "resolve schema_products_own_id =
     Inr (bind_roles schema_products_own_id ''customer_id'' ''order_id'')"
  by code_simp

lemma tier_schema_products_own_id:
  "select_tier (bind_roles schema_products_own_id ''customer_id'' ''order_id'') = Full"
  by code_simp

lemma resolve_scenario_C:
  "resolve scenario_C = Inr (bind_roles scenario_C ''customer_id'' ''order_id'')"
  by code_simp

lemma tier_scenario_C:
  "select_tier (bind_roles scenario_C ''customer_id'' ''order_id'') = Full"
  by code_simp

lemma resolve_scenario_B:
  "resolve scenario_B = Inr (bind_roles scenario_B ''customer_id'' ''order_id'')"
  by code_simp

lemma tier_scenario_B:
  "select_tier (bind_roles scenario_B ''customer_id'' ''order_id'') = Degraded"
  by code_simp

lemma eval_scenario_C:
  "find_table (get_tables scenario_C) ''customers'' = Some ''customers''"
  "find_table (get_tables scenario_C) ''orders'' = Some ''orders''"
  "find_table (get_tables scenario_C) ''order_items'' = Some ''order_items''"
  "find_table (get_tables scenario_C) ''products'' = Some ''products''"
  "full_select (bind_roles scenario_C ''customer_id'' ''order_id'') =
      [''        SELECT'',
       ''            c.customer_id AS customer_id,'',
       ''            c.name AS customer_name,'',
       ''            p.name AS product_name,'',
       ''            o.order_id AS order_id,'',
       ''            o.order_date,'',
       ''            oi.quantity AS quantity,'',
       ''            oi.subtotal AS subtotal,'',
       ''            r.rating'']"
  "cust_id_col (bind_roles scenario_C ''customer_id'' ''order_id'') = ''customer_id''"
  "order_id_col (bind_roles scenario_C ''customer_id'' ''order_id'') = ''order_id''"
  "or_default (product_id_col (bind_roles scenario_C ''customer_id'' ''order_id'')) ''product_id''
     = ''product_id''"
  "fmt (t_reviews (bind_roles scenario_C ''customer_id'' ''order_id'')) = ''reviews''"
  by code_simp+

lemma eval_scenario_B:
  "find_table (get_tables scenario_B) ''customers'' = Some ''customers''"
  "find_table (get_tables scenario_B) ''orders'' = Some ''orders''"
  "find_table (get_tables scenario_B) ''products'' = Some ''products''"
  "degraded_select (bind_roles scenario_B ''customer_id'' ''order_id'') =
      [''        SELECT'',
       ''            c.customer_id AS customer_id,'',
       ''            c.name AS customer_name,'',
       ''            p.name AS product_name,'',
       ''            o.order_id AS order_id,'',
       ''            o.order_date,'',
       ''            1 AS quantity,'',
       ''            o.total_amount AS subtotal,'',
       ''            NULL AS rating'']"
  "cust_id_col (bind_roles scenario_B ''customer_id'' ''order_id'') = ''customer_id''"
  "product_id_col (bind_roles scenario_B ''customer_id'' ''order_id'') = Some ''product_id''"
  "fmt (t_reviews (bind_roles scenario_B ''customer_id'' ''order_id'')) = ''None''"
  by code_simp+

text \<open>
  Claim C4 as stated fails: the products side of the Full tier's products join is not
  taken from the products table. With a products table whose columns are
  \<^verbatim>\<open>id, name\<close> (own product-id role: \<^verbatim>\<open>id\<close>) and order_items holding
  \<^verbatim>\<open>product_id\<close>, the Full tier is selected and the join compares with
  \<^verbatim>\<open>p.product_id\<close>.
\<close>

theorem products_side_uses_order_items_name:
  "resolve_spec (columns_of schema_products_own_id ''products'') PRODUCT_ID_CANDIDATES = Some ''id''
   \<and> map_sum id select_tier (resolve schema_products_own_id) = Inr Full
   \<and> build_query schema_products_own_id =
     Inr (text_block
      [''        SELECT'',
       ''            c.customer_id AS customer_id,'',
       ''            c.name AS customer_name,'',
       ''            p.name AS product_name,'',
       ''            o.order_id AS order_id,'',
       ''            o.order_date,'',
       ''            oi.quantity AS quantity,'',
       ''            oi.subtotal AS subtotal,'',
       ''            r.rating'',
       ''        FROM customers c'',
       ''        JOIN orders o ON c.customer_id = o.customer_id'',
       ''        JOIN order_items oi ON o.order_id = oi.order_id'',
       ''        LEFT JOIN products p ON oi.product_id = p.product_id'',
       ''        LEFT JOIN reviews r ON r.customer_id = c.customer_id AND r.product_id = p.product_id'',
       ''        LIMIT 50;'',
       ''        ''])"
  by code_simp

text \<open>
  Claim C4, amended: in every schema where the Full tier is selected, the thirteenth line
  of the text is the left join of products; it compares the literal column
  \<^verbatim>\<open>oi.product_id\<close> with the products-side column named by the product-id role as
  lines 66 to 70 resolve it: the first of \<^verbatim>\<open>product_id, id\<close> present in the
  order_items columns, failing that the first present in the orders columns, and the
  literal \<^verbatim>\<open>product_id\<close> when neither table has one.
\<close>

theorem full_products_join_key:
  assumes "resolve conn = Inr b" and "select_tier b = Full"
  shows "\<exists>tp pre post.
           find_table (get_tables conn) ''products'' = Some tp
         \<and> length pre = 12 \<and> length post = 3
         \<and> build_query conn =
             Inr (text_block (pre @
               [''        LEFT JOIN '' @ tp @ '' p ON oi.product_id = p.'' @
                  (case resolve_spec (columns_of conn ''order_items'') PRODUCT_ID_CANDIDATES of
                     None \<Rightarrow>
                       (case resolve_spec (columns_of conn ''orders'') PRODUCT_ID_CANDIDATES of
                          None \<Rightarrow> ''product_id'' | Some c \<Rightarrow> c)
                   | Some c \<Rightarrow> c)] @ post))"
proof -
  from full_tier_tables [OF assms] obtain tc tor toi tp
    where f: "find_table (get_tables conn) ''products'' = Some tp"
      and t: "t_customers b = Some tc" "t_orders b = Some tor"
        "t_order_items b = Some toi" "t_products b = Some tp"
    by blast
  define key where "key = (case resolve_spec (columns_of conn ''order_items'') PRODUCT_ID_CANDIDATES of
                     None \<Rightarrow>
                       (case resolve_spec (columns_of conn ''orders'') PRODUCT_ID_CANDIDATES of
                          None \<Rightarrow> ''product_id'' | Some c \<Rightarrow> c)
                   | Some c \<Rightarrow> c)"
  have k: "or_default (product_id_col b) ''product_id'' = key"
    unfolding key_def find_first_in_resolve_spec [symmetric] by (rule product_key_eq [OF assms(1)])
  define pre where "pre = full_select b @ take 3 (full_from b)"
  define post where "post = drop 4 (full_from b) @ [''        LIMIT 50;'', ''        '']"
  have "length pre = 12" by (simp add: pre_def full_select_def full_from_def)
  moreover have "length post = 3" by (simp add: post_def full_from_def)
  moreover have "full_from b = take 3 (full_from b)
      @ [''        LEFT JOIN '' @ tp @ '' p ON oi.product_id = p.'' @ key] @ drop 4 (full_from b)"
    unfolding full_from_explicit [OF t] k by simp
  then have "full_sql b = text_block (pre @
      [''        LEFT JOIN '' @ tp @ '' p ON oi.product_id = p.'' @ key] @ post)"
    unfolding full_sql_def pre_def post_def by (metis append.assoc)
  then have "build_query conn = Inr (text_block (pre @
      [''        LEFT JOIN '' @ tp @ '' p ON oi.product_id = p.'' @ key] @ post))"
    using build_query_resolved [OF assms(1)] assms(2) by (simp add: render_def)
  ultimately show ?thesis using f unfolding key_def by blast
qed

theorem full_products_join_key_witness:
  "\<exists>tp pre post.
           find_table (get_tables schema_products_own_id) ''products'' = Some tp
         \<and> length pre = 12 \<and> length post = 3
         \<and> build_query schema_products_own_id =
             Inr (text_block (pre @
               [''        LEFT JOIN '' @ tp @ '' p ON oi.product_id = p.'' @
                  (case resolve_spec (columns_of schema_products_own_id ''order_items'')
                          PRODUCT_ID_CANDIDATES of
                     None \<Rightarrow>
                       (case resolve_spec (columns_of schema_products_own_id ''orders'')
                               PRODUCT_ID_CANDIDATES of
                          None \<Rightarrow> ''product_id'' | Some c \<Rightarrow> c)
                   | Some c \<Rightarrow> c)] @ post))"
  by (rule full_products_join_key
        [OF resolve_schema_products_own_id tier_schema_products_own_id])

text \<open>
  Claim C10: in the Full tier the orders side of the customers-orders join is the literal
  \<^verbatim>\<open>o.customer_id\<close> and the order_items side of the orders-order_items join is the
  literal \<^verbatim>\<open>oi.order_id\<close>; in the Full and the Degraded tier the reviews side of the
  reviews join is the literal pair \<^verbatim>\<open>r.customer_id\<close>, \<^verbatim>\<open>r.product_id\<close>. The
  FROM and JOIN lines are given in full: the only holes in the join conditions follow the
  aliases \<^verbatim>\<open>c\<close>, \<^verbatim>\<open>o\<close> and \<^verbatim>\<open>p\<close>, whatever the snapshot and the role
  bindings are.
\<close>

theorem join_sides_literal:
  assumes "resolve conn = Inr b"
  shows "(select_tier b = Full \<longrightarrow>
           (\<exists>tc tor toi tp.
              find_table (get_tables conn) ''customers'' = Some tc
            \<and> find_table (get_tables conn) ''orders'' = Some tor
            \<and> find_table (get_tables conn) ''order_items'' = Some toi
            \<and> find_table (get_tables conn) ''products'' = Some tp
            \<and> build_query conn =
                Inr (text_block (full_select b @
                  [''        FROM '' @ tc @ '' c'',
                   ''        JOIN '' @ tor @ '' o ON c.'' @ cust_id_col b @ '' = o.customer_id'',
                   ''        JOIN '' @ toi @ '' oi ON o.'' @ order_id_col b @ '' = oi.order_id'',
                   ''        LEFT JOIN '' @ tp @ '' p ON oi.product_id = p.''
                     @ or_default (product_id_col b) ''product_id'',
                   ''        LEFT JOIN '' @ fmt (t_reviews b) @ '' r ON r.customer_id = c.''
                     @ cust_id_col b @ '' AND r.product_id = p.''
                     @ or_default (product_id_col b) ''product_id'',
                   ''        LIMIT 50;'',
                   ''        '']))))
       \<and> (select_tier b = Degraded \<longrightarrow>
           (\<exists>tc tor tp k.
              find_table (get_tables conn) ''customers'' = Some tc
            \<and> find_table (get_tables conn) ''orders'' = Some tor
            \<and> find_table (get_tables conn) ''products'' = Some tp
            \<and> product_id_col b = Some k
            \<and> build_query conn =
                Inr (text_block (degraded_select b @
                  [''        FROM '' @ tc @ '' c'',
                   ''        JOIN '' @ tor @ '' o ON c.'' @ cust_id_col b @ '' = o.customer_id'',
                   ''        LEFT JOIN '' @ tp @ '' p ON o.'' @ k @ '' = p.'' @ k,
                   ''        LEFT JOIN '' @ fmt (t_reviews b) @ '' r ON r.customer_id = c.''
                     @ cust_id_col b @ '' AND r.product_id = p.'' @ k,
                   ''        LIMIT 50;'',
                   ''        '']))))"
proof (intro conjI impI)
  assume full: "select_tier b = Full"
  from full_tier_tables [OF assms full] obtain tc tor toi tp
    where f: "find_table (get_tables conn) ''customers'' = Some tc"
        "find_table (get_tables conn) ''orders'' = Some tor"
        "find_table (get_tables conn) ''order_items'' = Some toi"
        "find_table (get_tables conn) ''products'' = Some tp"
      and t: "t_customers b = Some tc" "t_orders b = Some tor"
        "t_order_items b = Some toi" "t_products b = Some tp"
    by blast
  have "build_query conn = Inr (full_sql b)"
    using build_query_resolved [OF assms] full by (simp add: render_def)
  then have "build_query conn =
                Inr (text_block (full_select b @
                  [''        FROM '' @ tc @ '' c'',
                   ''        JOIN '' @ tor @ '' o ON c.'' @ cust_id_col b @ '' = o.customer_id'',
                   ''        JOIN '' @ toi @ '' oi ON o.'' @ order_id_col b @ '' = oi.order_id'',
                   ''        LEFT JOIN '' @ tp @ '' p ON oi.product_id = p.''
                     @ or_default (product_id_col b) ''product_id'',
                   ''        LEFT JOIN '' @ fmt (t_reviews b) @ '' r ON r.customer_id = c.''
                     @ cust_id_col b @ '' AND r.product_id = p.''
                     @ or_default (product_id_col b) ''product_id'',
                   ''        LIMIT 50;'',
                   ''        '']))"
    unfolding full_sql_def full_from_explicit [OF t] by simp
  with f show "\<exists>tc tor toi tp.
              find_table (get_tables conn) ''customers'' = Some tc
            \<and> find_table (get_tables conn) ''orders'' = Some tor
            \<and> find_table (get_tables conn) ''order_items'' = Some toi
            \<and> find_table (get_tables conn) ''products'' = Some tp
            \<and> build_query conn =
                Inr (text_block (full_select b @
                  [''        FROM '' @ tc @ '' c'',
                   ''        JOIN '' @ tor @ '' o ON c.'' @ cust_id_col b @ '' = o.customer_id'',
                   ''        JOIN '' @ toi @ '' oi ON o.'' @ order_id_col b @ '' = oi.order_id'',
                   ''        LEFT JOIN '' @ tp @ '' p ON oi.product_id = p.''
                     @ or_default (product_id_col b) ''product_id'',
                   ''        LEFT JOIN '' @ fmt (t_reviews b) @ '' r ON r.customer_id = c.''
                     @ cust_id_col b @ '' AND r.product_id = p.''
                     @ or_default (product_id_col b) ''product_id'',
                   ''        LIMIT 50;'',
                   ''        '']))"
    by blast
next
  assume deg: "select_tier b = Degraded"
  from degraded_tier_tables [OF assms deg] obtain tc tor tp k
    where f: "find_table (get_tables conn) ''customers'' = Some tc"
        "find_table (get_tables conn) ''orders'' = Some tor"
        "find_table (get_tables conn) ''products'' = Some tp"
      and t: "t_customers b = Some tc" "t_orders b = Some tor" "t_products b = Some tp"
        "product_id_col b = Some k"
    by blast
  have "build_query conn = Inr (degraded_sql b)"
    using build_query_resolved [OF assms] deg by (simp add: render_def)
  then have "build_query conn =
                Inr (text_block (degraded_select b @
                  [''        FROM '' @ tc @ '' c'',
                   ''        JOIN '' @ tor @ '' o ON c.'' @ cust_id_col b @ '' = o.customer_id'',
                   ''        LEFT JOIN '' @ tp @ '' p ON o.'' @ k @ '' = p.'' @ k,
                   ''        LEFT JOIN '' @ fmt (t_reviews b) @ '' r ON r.customer_id = c.''
                     @ cust_id_col b @ '' AND r.product_id = p.'' @ k,
                   ''        LIMIT 50;'',
                   ''        '']))"
    unfolding degraded_sql_def degraded_from_explicit [OF t] by simp
  with f t(4) show "\<exists>tc tor tp k.
              find_table (get_tables conn) ''customers'' = Some tc
            \<and> find_table (get_tables conn) ''orders'' = Some tor
            \<and> find_table (get_tables conn) ''products'' = Some tp
            \<and> product_id_col b = Some k
            \<and> build_query conn =
                Inr (text_block (degraded_select b @
                  [''        FROM '' @ tc @ '' c'',
                   ''        JOIN '' @ tor @ '' o ON c.'' @ cust_id_col b @ '' = o.customer_id'',
                   ''        LEFT JOIN '' @ tp @ '' p ON o.'' @ k @ '' = p.'' @ k,
                   ''        LEFT JOIN '' @ fmt (t_reviews b) @ '' r ON r.customer_id = c.''
                     @ cust_id_col b @ '' AND r.product_id = p.'' @ k,
                   ''        LIMIT 50;'',
                   ''        '']))"
    by blast
qed

theorem join_sides_literal_witness:
  "build_query scenario_C =
     Inr (text_block
      [''        SELECT'',
       ''            c.customer_id AS customer_id,'',
       ''            c.name AS customer_name,'',
       ''            p.name AS product_name,'',
       ''            o.order_id AS order_id,'',
       ''            o.order_date,'',
       ''            oi.quantity AS quantity,'',
       ''            oi.subtotal AS subtotal,'',
       ''            r.rating'',
       ''        FROM customers c'',
       ''        JOIN orders o ON c.customer_id = o.customer_id'',
       ''        JOIN order_items oi ON o.order_id = oi.order_id'',
       ''        LEFT JOIN products p ON oi.product_id = p.product_id'',
       ''        LEFT JOIN reviews r ON r.customer_id = c.customer_id AND r.product_id = p.product_id'',
       ''        LIMIT 50;'',
       ''        ''])
   \<and> build_query scenario_B =
     Inr (text_block
      [''        SELECT'',
       ''            c.customer_id AS customer_id,'',
       ''            c.name AS customer_name,'',
       ''            p.name AS product_name,'',
       ''            o.order_id AS order_id,'',
       ''            o.order_date,'',
       ''            1 AS quantity,'',
       ''            o.total_amount AS subtotal,'',
       ''            NULL AS rating'',
       ''        FROM customers c'',
       ''        JOIN orders o ON c.customer_id = o.customer_id'',
       ''        LEFT JOIN products p ON o.product_id = p.product_id'',
       ''        LEFT JOIN None r ON r.customer_id = c.customer_id AND r.product_id = p.product_id'',
       ''        LIMIT 50;'',
       ''        ''])"
proof
  from join_sides_literal [OF resolve_scenario_C, THEN conjunct1, THEN mp, OF tier_scenario_C]
  show "build_query scenario_C =
     Inr (text_block
      [''        SELECT'',
       ''            c.customer_id AS customer_id,'',
       ''            c.name AS customer_name,'',
       ''            p.name AS product_name,'',
       ''            o.order_id AS order_id,'',
       ''            o.order_date,'',
       ''            oi.quantity AS quantity,'',
       ''            oi.subtotal AS subtotal,'',
       ''            r.rating'',
       ''        FROM customers c'',
       ''        JOIN orders o ON c.customer_id = o.customer_id'',
       ''        JOIN order_items oi ON o.order_id = oi.order_id'',
       ''        LEFT JOIN products p ON oi.product_id = p.product_id'',
       ''        LEFT JOIN reviews r ON r.customer_id = c.customer_id AND r.product_id = p.product_id'',
       ''        LIMIT 50;'',
       ''        ''])"
    unfolding eval_scenario_C by auto
  from join_sides_literal [OF resolve_scenario_B, THEN conjunct2, THEN mp, OF tier_scenario_B]
  show "build_query scenario_B =
     Inr (text_block
      [''        SELECT'',
       ''            c.customer_id AS customer_id,'',
       ''            c.name AS customer_name,'',
       ''            p.name AS product_name,'',
       ''            o.order_id AS order_id,'',
       ''            o.order_date,'',
       ''            1 AS quantity,'',
       ''            o.total_amount AS subtotal,'',
       ''            NULL AS rating'',
       ''        FROM customers c'',
       ''        JOIN orders o ON c.customer_id = o.customer_id'',
       ''        LEFT JOIN products p ON o.product_id = p.product_id'',
       ''        LEFT JOIN None r ON r.customer_id = c.customer_id AND r.product_id = p.product_id'',
       ''        LIMIT 50;'',
       ''        ''])"
    unfolding eval_scenario_B by auto
qed

subsection \<open>Customers and orders only\<close>

lemma minimal_sql_explicit:
  assumes "t_customers b = Some tc" "t_orders b = Some tor"
  shows "minimal_sql b =
     text_block
      [''    SELECT'',
       ''        c.'' @ cust_id_col b @ '' AS customer_id,'',
       ''        c.name AS customer_name,'',
       ''        o.'' @ order_id_col b @ '' AS order_id,'',
       ''        o.order_date,'',
       ''        o.'' @ or_default (order_total_col b) ''total_amount'' @ '' AS total_amount'',
       ''    FROM '' @ tc @ '' c'',
       ''    LEFT JOIN '' @ tor @ '' o ON c.'' @ cust_id_col b @ '' = o.customer_id'',
       ''    LIMIT 50;'',
       ''    '']"
  using assms by (simp add: minimal_sql_def minimal_select_def minimal_from_def fmt_def)

lemma eval_schema_unmatched_ids:
  "set (map lower (get_tables schema_unmatched_ids)) = {''customers'', ''orders''}"
  "columns_of schema_unmatched_ids ''customers'' = [''cid'', ''full_name'']"
  "columns_of schema_unmatched_ids ''orders'' = [''oid'', ''cid'', ''placed_on'']"
  "find_table (get_tables schema_unmatched_ids) ''customers'' = Some ''customers''"
  "find_table (get_tables schema_unmatched_ids) ''orders'' = Some ''orders''"
  "resolve_spec [''cid'', ''full_name''] CUSTOMER_ID_CANDIDATES = None"
  "resolve_spec [''oid'', ''cid'', ''placed_on''] ORDER_ID_CANDIDATES = None"
  "resolve_spec [''oid'', ''cid'', ''placed_on''] ORDER_TOTAL_CANDIDATES = None"
  by code_simp+

text \<open>
  Claim C6: for every snapshot whose tables are exactly a customers and an orders table
  (names compared after lower-casing), whatever their columns are, \<^verbatim>\<open>build_query\<close>
  succeeds and renders the Minimal tier: a left join of customers to orders that projects
  the customer id, the literal column \<^verbatim>\<open>name\<close>, the order id, the literal column
  \<^verbatim>\<open>order_date\<close> and the resolved order-total column or the literal
  \<^verbatim>\<open>total_amount\<close>. When no column matches a candidate, the two id columns are the
  first column of their table and the total is the literal fallback, as the witness
  shows. Each table has at least one column, as every table of the store has.
\<close>

theorem customers_orders_only_minimal:
  assumes "set (map lower (get_tables conn)) = {''customers'', ''orders''}"
    and "columns_of conn ''customers'' \<noteq> []"
    and "columns_of conn ''orders'' \<noteq> []"
  shows "\<exists>tc tor b.
           find_table (get_tables conn) ''customers'' = Some tc
         \<and> find_table (get_tables conn) ''orders'' = Some tor
         \<and> resolve conn = Inr b \<and> select_tier b = Minimal
         \<and> build_query conn =
             Inr (text_block
              [''    SELECT'',
               ''        c.'' @
                 (case resolve_spec (columns_of conn ''customers'') CUSTOMER_ID_CANDIDATES of
                    None \<Rightarrow> hd (columns_of conn ''customers'') | Some c \<Rightarrow> c)
                 @ '' AS customer_id,'',
               ''        c.name AS customer_name,'',
               ''        o.'' @
                 (case resolve_spec (columns_of conn ''orders'') ORDER_ID_CANDIDATES of
                    None \<Rightarrow> hd (columns_of conn ''orders'') | Some c \<Rightarrow> c)
                 @ '' AS order_id,'',
               ''        o.order_date,'',
               ''        o.'' @
                 (case resolve_spec (columns_of conn ''orders'') ORDER_TOTAL_CANDIDATES of
                    None \<Rightarrow> ''total_amount'' | Some c \<Rightarrow> c)
                 @ '' AS total_amount'',
               ''    FROM '' @ tc @ '' c'',
               ''    LEFT JOIN '' @ tor @ '' o ON c.'' @
                 (case resolve_spec (columns_of conn ''customers'') CUSTOMER_ID_CANDIDATES of
                    None \<Rightarrow> hd (columns_of conn ''customers'') | Some c \<Rightarrow> c)
                 @ '' = o.customer_id'',
               ''    LIMIT 50;'',
               ''    ''])"
proof -
  define cid where "cid =
    (case resolve_spec (columns_of conn ''customers'') CUSTOMER_ID_CANDIDATES of
       None \<Rightarrow> hd (columns_of conn ''customers'') | Some c \<Rightarrow> c)"
  define oid where "oid =
    (case resolve_spec (columns_of conn ''orders'') ORDER_ID_CANDIDATES of
       None \<Rightarrow> hd (columns_of conn ''orders'') | Some c \<Rightarrow> c)"
  define tot where "tot =
    (case resolve_spec (columns_of conn ''orders'') ORDER_TOTAL_CANDIDATES of
       None \<Rightarrow> ''total_amount'' | Some c \<Rightarrow> c)"
  define b where "b = bind_roles conn cid oid"
  from assms(1) have p: "''customers'' \<in> set (map lower (get_tables conn))"
    "''orders'' \<in> set (map lower (get_tables conn))"
    by simp_all
  from assms(1) have a: "''order_items'' \<notin> set (map lower (get_tables conn))"
    "''products'' \<notin> set (map lower (get_tables conn))"
    by simp_all
  have r: "resolve conn = Inr b"
    unfolding resolve_eq [OF p] b_def cid_def oid_def find_first_in_resolve_spec [symmetric]
    using assms(2,3) by simp
  from resolved_tables [OF r] obtain tc tor
    where f: "find_table (get_tables conn) ''customers'' = Some tc"
        "find_table (get_tables conn) ''orders'' = Some tor"
      and t: "t_customers b = Some tc" "t_orders b = Some tor"
    by blast
  have "t_order_items b = None"
    using resolved_optional(2) [OF r] absent_table [OF a(1)] by simp
  moreover have "t_products b = None"
    using resolved_optional(1) [OF r] absent_table [OF a(2)] by simp
  ultimately have m: "select_tier b = Minimal"
    by (simp add: select_tier_def truthy_def)
  have c: "cust_id_col b = cid" "order_id_col b = oid"
    by (simp_all only: b_def bind_roles_tables)
  have o: "or_default (order_total_col b) ''total_amount'' = tot"
    unfolding resolved_optional(6) [OF r] tot_def find_first_in_resolve_spec [symmetric]
    by (rule or_default_find [OF candidates_nonempty(2)])
  have "build_query conn = Inr (minimal_sql b)"
    using build_query_resolved [OF r] m by (simp add: render_def)
  then have "build_query conn =
     Inr (text_block
      [''    SELECT'',
       ''        c.'' @ cid @ '' AS customer_id,'',
       ''        c.name AS customer_name,'',
       ''        o.'' @ oid @ '' AS order_id,'',
       ''        o.order_date,'',
       ''        o.'' @ tot @ '' AS total_amount'',
       ''    FROM '' @ tc @ '' c'',
       ''    LEFT JOIN '' @ tor @ '' o ON c.'' @ cid @ '' = o.customer_id'',
       ''    LIMIT 50;'',
       ''    ''])"
    unfolding minimal_sql_explicit [OF t] c o .
  with f r m show ?thesis unfolding cid_def oid_def tot_def by blast
qed

theorem customers_orders_only_minimal_witness:
  "build_query schema_unmatched_ids =
     Inr (text_block
      [''    SELECT'',
       ''        c.cid AS customer_id,'',
       ''        c.name AS customer_name,'',
       ''        o.oid AS order_id,'',
       ''        o.order_date,'',
       ''        o.total_amount AS total_amount'',
       ''    FROM customers c'',
       ''    LEFT JOIN orders o ON c.cid = o.customer_id'',
       ''    LIMIT 50;'',
       ''    ''])"
proof -
  have "columns_of schema_unmatched_ids ''customers'' \<noteq> []"
    "columns_of schema_unmatched_ids ''orders'' \<noteq> []"
    by (simp_all add: eval_schema_unmatched_ids)
  from customers_orders_only_minimal [OF eval_schema_unmatched_ids(1) this]
  show ?thesis unfolding eval_schema_unmatched_ids by auto
qed

subsection \<open>Adding an order_items table\<close>

lemma find_table_insert_other:
  "lower n \<noteq> name \<Longrightarrow> find_table (xs @ n # ys) name = find_table (xs @ ys) name"
  by (induction xs) simp_all

lemma optional_table_insert_other:
  "lower n \<noteq> name \<Longrightarrow> optional_table (xs @ n # ys) name = optional_table (xs @ ys) name"
  by (auto simp: optional_table_def find_table_insert_other)

lemma get_tables_append: "get_tables (xs @ ys) = get_tables xs @ get_tables ys"
  by (simp add: get_tables_def)

lemma get_tables_Cons: "get_tables ((n, cols) # ys) = n # get_tables ys"
  by (simp add: get_tables_def)

lemma map_of_insert_other:
  "t \<noteq> n \<Longrightarrow> map_of (xs @ (n, cols) # ys) t = map_of (xs @ ys) t"
  by (induction xs) auto

lemma columns_of_insert_other:
  assumes "lower n \<noteq> name"
  shows "columns_of (xs @ (n, cols) # ys) name = columns_of (xs @ ys) name"
proof -
  have o: "optional_table (get_tables (xs @ (n, cols) # ys)) name
      = optional_table (get_tables (xs @ ys)) name"
    by (simp only: get_tables_append get_tables_Cons optional_table_insert_other [OF assms])
  show ?thesis
  proof (cases "truthy (optional_table (get_tables (xs @ ys)) name)")
    case False
    with o show ?thesis by (simp add: columns_of_def optional_columns_def)
  next
    case True
    from truthy_SomeD [OF this] obtain t
      where t: "optional_table (get_tables (xs @ ys)) name = Some t" by blast
    then have "find_table (get_tables (xs @ ys)) name = Some t"
      by (simp add: optional_table_def split: if_splits)
    from find_table_SomeD [OF this] have "lower t = name" by simp
    with assms have "t \<noteq> n" by blast
    then have "map_of (xs @ (n, cols) # ys) t = map_of (xs @ ys) t"
      by (rule map_of_insert_other)
    then have "get_columns (xs @ (n, cols) # ys) (Some t) = get_columns (xs @ ys) (Some t)"
      by (simp add: get_columns_def fmt_def del: map_of_append map_of.simps)
    with o t True show ?thesis by (simp add: columns_of_def optional_columns_def)
  qed
qed

lemma lower_order_items: "lower ''order_items'' = ''order_items''"
  by code_simp

lemma truthy_name_scenario_B:
  "truthy (product_name_col (bind_roles scenario_B ''customer_id'' ''order_id''))"
  by code_simp

text \<open>
  Claim C5: take a snapshot for which the Degraded or the Minimal tier is selected and in
  which the product-name role resolves (the product-name chain is resolvable: a products
  table with a product-name candidate among its columns). Adding a table whose name
  lower-cases to \<^verbatim>\<open>order_items\<close>, with any columns and at any position of the
  catalogue, and changing nothing else, makes \<^verbatim>\<open>build_query\<close> succeed with the Full
  tier.
\<close>

theorem adding_order_items_selects_full:
  assumes "resolve (xs @ ys) = Inr b"
    and "select_tier b = Degraded \<or> select_tier b = Minimal"
    and "truthy (product_name_col b)"
    and "lower n = ''order_items''"
  shows "\<exists>b'. resolve (xs @ (n, cols) # ys) = Inr b' \<and> select_tier b' = Full
           \<and> build_query (xs @ (n, cols) # ys) = Inr (full_sql b')"
proof -
  let ?old = "xs @ ys" and ?new = "xs @ (n, cols) # ys"
  note d = resolve_InrD [OF assms(1)]
  have ne: "lower n \<noteq> ''customers''" "lower n \<noteq> ''orders''" "lower n \<noteq> ''products''"
    using assms(4) by simp_all
  have p: "''customers'' \<in> set (map lower (get_tables ?new))"
    "''orders'' \<in> set (map lower (get_tables ?new))"
    using d(1,2) by (auto simp: get_tables_append get_tables_Cons)
  have oi: "''order_items'' \<in> set (map lower (get_tables ?new))"
    using assms(4) by (simp add: get_tables_append get_tables_Cons)
  have c: "columns_of ?new ''customers'' = columns_of ?old ''customers''"
    "columns_of ?new ''orders'' = columns_of ?old ''orders''"
    "columns_of ?new ''products'' = columns_of ?old ''products''"
    using ne by (simp_all add: columns_of_insert_other)
  from d(3,4) c have "columns_of ?new ''customers'' \<noteq> []" "columns_of ?new ''orders'' \<noteq> []"
    by simp_all
  then obtain b' where r: "resolve ?new = Inr b'"
    using resolve_eq [OF p] by simp
  have "product_name_col b' = product_name_col b"
    unfolding resolved_optional(4) [OF r] resolved_optional(4) [OF assms(1)] c ..
  with assms(3) have n: "truthy (product_name_col b')" by simp
  have "truthy (t_order_items b')"
    unfolding resolved_optional(2) [OF r]
    using optional_table_truthy [of "''order_items''" "get_tables ?new"] oi by simp
  with n have f: "select_tier b' = Full" by (simp add: select_tier_Full_iff)
  then have "build_query ?new = Inr (full_sql b')"
    using build_query_resolved [OF r] by (simp add: render_def)
  with r f show ?thesis by blast
qed

theorem adding_order_items_selects_full_witness:
  "\<exists>b'. resolve (scenario_B @ (''order_items'', [''order_id'', ''product_id'', ''qty'']) # [])
            = Inr b'
         \<and> select_tier b' = Full
         \<and> build_query (scenario_B @ (''order_items'', [''order_id'', ''product_id'', ''qty'']) # [])
            = Inr (full_sql b')"
proof -
  have r: "resolve (scenario_B @ []) = Inr (bind_roles scenario_B ''customer_id'' ''order_id'')"
    using resolve_scenario_B by simp
  have t: "select_tier (bind_roles scenario_B ''customer_id'' ''order_id'') = Degraded
     \<or> select_tier (bind_roles scenario_B ''customer_id'' ''order_id'') = Minimal"
    using tier_scenario_B by simp
  show ?thesis
    by (rule adding_order_items_selects_full
          [OF r t truthy_name_scenario_B lower_order_items])
qed

subsection \<open>Determinism\<close>

lemma find_table_unique:
  "distinct (map lower ts) \<Longrightarrow> t \<in> set ts \<Longrightarrow> find_table ts (lower t) = Some t"
  by (induction ts) auto

lemma find_table_order:
  assumes "set ts1 = set ts2" and "distinct (map lower ts1)" and "distinct (map lower ts2)"
  shows "find_table ts1 n = find_table ts2 n"
proof (cases "find_table ts1 n")
  case None
  then have "n \<notin> set (map lower ts1)" using find_table_None_iff by blast
  with assms(1) have "n \<notin> set (map lower ts2)" by simp
  then have "find_table ts2 n = None" using find_table_None_iff by blast
  with None show ?thesis by simp
next
  case (Some t)
  from find_table_SomeD [OF this] have "t \<in> set ts1" and l: "lower t = n" by simp_all
  with assms(1) have "t \<in> set ts2" by simp
  from find_table_unique [OF assms(3) this] l Some show ?thesis by simp
qed

lemma optional_table_order:
  assumes "set ts1 = set ts2" and "distinct (map lower ts1)" and "distinct (map lower ts2)"
  shows "optional_table ts1 n = optional_table ts2 n"
  using find_table_order [OF assms, of n] assms(1) by (simp add: optional_table_def)

lemma get_columns_order:
  assumes "set s1 = set s2" and "distinct (get_tables s1)" and "distinct (get_tables s2)"
  shows "get_columns s1 t = get_columns s2 t"
proof -
  from assms have "map_of s1 = map_of s2"
    unfolding get_tables_def by (simp add: map_of_inject_set)
  then show ?thesis by (simp add: get_columns_def)
qed

lemma resolve_order:
  assumes "set s1 = set s2"
    and "distinct (map lower (get_tables s1))" and "distinct (map lower (get_tables s2))"
  shows "resolve s1 = resolve s2"
proof -
  have t: "set (get_tables s1) = set (get_tables s2)"
    using assms(1) by (simp add: get_tables_def)
  have d: "distinct (get_tables s1)" "distinct (get_tables s2)"
    using assms(2,3) by (simp_all add: distinct_map)
  note f = find_table_order [OF t assms(2,3)]
  note o = optional_table_order [OF t assms(2,3)]
  note g = get_columns_order [OF assms(1) d]
  have l: "set (map lower (get_tables s1)) = set (map lower (get_tables s2))"
    using t by simp
  have oc: "optional_columns s1 v = optional_columns s2 v" for v
    by (simp add: optional_columns_def g)
  have b: "bind_roles s1 cid oid = bind_roles s2 cid oid" for cid oid
    unfolding bind_roles_def Let_def by (simp only: f o g oc)
  show ?thesis
    unfolding resolve_def Let_def by (simp only: l f g b)
qed

lemma eval_scenario_A_order:
  "set [(''orders'', [''order_id'', ''customer_id'', ''total_amount'', ''order_date'']),
        (''customers'', [''customer_id'', ''name''])] = set scenario_A"
  "distinct (map lower (get_tables
      [(''orders'', [''order_id'', ''customer_id'', ''total_amount'', ''order_date'']),
       (''customers'', [''customer_id'', ''name''])]))"
  "distinct (map lower (get_tables scenario_A))"
  by code_simp+

text \<open>
  Claim C9: the outcome of \<^verbatim>\<open>build_query\<close> is determined by the snapshot: two
  invocations on the same snapshot return the same text, byte for byte, or the same error.
  The text does not even depend on the order in which the catalogue lists the tables, as
  long as no two table names agree after lower-casing (the store keeps table names apart
  up to case).
\<close>

theorem build_query_deterministic:
  assumes "s1 = s2 \<or>
      (set s1 = set s2 \<and> distinct (map lower (get_tables s1))
         \<and> distinct (map lower (get_tables s2)))"
  shows "build_query s1 = build_query s2"
proof -
  from assms have "resolve s1 = resolve s2"
    using resolve_order by blast
  then show ?thesis by (simp add: build_query_def)
qed

theorem build_query_deterministic_witness:
  "build_query
     [(''orders'', [''order_id'', ''customer_id'', ''total_amount'', ''order_date'']),
      (''customers'', [''customer_id'', ''name''])]
   = build_query scenario_A"
  using eval_scenario_A_order
  by (intro build_query_deterministic) blast

end
